theory Spec2Isabelle
  imports Main "HOL-Library.Word" "HOL-Library.Signed_Division"
begin

section \<open>FileCopyManager: the coordinator of src/helper/FileCopyManager.cpp\<close>

text \<open>
  The coordinator is a Qt object living on one control thread. Every member function below
  runs to completion on that thread, so each is a function from the world before the call
  to the world after it. The world holds the object's members, the file system the Qt calls
  act on, and the list of everything the object has done that an observer can see, oldest
  first: the signals it emitted, the worker threads it started and the Qt calls it made that
  look at or change the file system. The \<open>qDebug\<close> lines of the source write to the debug
  log only and are left out.
\<close>

subsection \<open>Signals, worker jobs and Qt calls\<close>

datatype signal =
    statusChanged
  | isCopyingChanged
  | progressChanged
  | totalSizeChanged
  | copySucceeded
  | copyFailed string
  | deleteSucceeded string
  | deleteFailed string
  | validationProgress string int
  | validationSucceeded string string
  | validationFailed string
  | imageInfoExtracted bool string string string
  | imageInfoAndValidationCompleted bool string string string string

text \<open>
  What the lambda connected to \<open>QThread::started\<close> calls on the worker, with the arguments it
  captured. The worker itself (filecopyworker.h) is outside this file.
\<close>

datatype job =
    doCopy string string
  | doDelete string
  | doValidateImage string
  | doExtractImageInfo string
  | doExtractAndValidateImage string

datatype qt_call =
    QDir_exists string
  | QDir_mkpath string
  | QDir_entryList_Files string
  | QDir_entryList_Dirs string
  | QFile_remove string
  | QDir_removeRecursively string
  | QDir_cdUp string
  | QDir_rmdir string string

datatype event = Emit signal | ThreadStart job | Qt qt_call

subsection \<open>The Qt file-system interface\<close>

text \<open>
  Qt is a library, not part of the repository: its calls are parameters of the model. A
  \<open>QDir\<close> or \<open>QFileInfo\<close> object is identified by the path it was built from. A query reads
  the file system; a mutating call returns its boolean result and the file system after it.

  \<^item> \<open>exists_dir fs d\<close>: \<open>QDir(d).exists()\<close>
  \<^item> \<open>mkpath fs d\<close>: \<open>QDir(d).mkpath(".")\<close>
  \<^item> \<open>entryList_Files fs d\<close>: \<open>QDir(d).entryList(QDir::Files)\<close>
  \<^item> \<open>entryList_Dirs fs d\<close>: \<open>QDir(d).entryList(QDir::Dirs | QDir::NoDotAndDotDot)\<close>
  \<^item> \<open>absoluteFilePath d n\<close>: \<open>QDir(d).absoluteFilePath(n)\<close>
  \<^item> \<open>remove_file fs p\<close>: \<open>QFile::remove(p)\<close>
  \<^item> \<open>removeRecursively fs d\<close>: \<open>QDir(d).removeRecursively()\<close>
  \<^item> \<open>cdUp fs d\<close>: the path of a copy of \<open>QDir(d)\<close> after \<open>cdUp()\<close>
  \<^item> \<open>fileName p\<close>: \<open>QFileInfo(p).fileName()\<close>
  \<^item> \<open>rmdir fs d n\<close>: \<open>QDir(d).rmdir(n)\<close>
  \<^item> \<open>fileInfo_dir p\<close>: the path of \<open>QFileInfo(p).dir()\<close>
\<close>

record 'fs qt =
  exists_dir :: "'fs \<Rightarrow> string \<Rightarrow> bool"
  mkpath :: "'fs \<Rightarrow> string \<Rightarrow> bool \<times> 'fs"
  entryList_Files :: "'fs \<Rightarrow> string \<Rightarrow> string list"
  entryList_Dirs :: "'fs \<Rightarrow> string \<Rightarrow> string list"
  absoluteFilePath :: "string \<Rightarrow> string \<Rightarrow> string"
  remove_file :: "'fs \<Rightarrow> string \<Rightarrow> bool \<times> 'fs"
  removeRecursively :: "'fs \<Rightarrow> string \<Rightarrow> bool \<times> 'fs"
  cdUp :: "'fs \<Rightarrow> string \<Rightarrow> string"
  fileName :: "string \<Rightarrow> string"
  rmdir :: "'fs \<Rightarrow> string \<Rightarrow> string \<Rightarrow> bool \<times> 'fs"
  fileInfo_dir :: "string \<Rightarrow> string"

subsection \<open>The world\<close>

text \<open>
  The members are declared in FileCopyManager.h, which is not among the sources. The two
  sizes take the type of the values the progress slot stores in them, \<open>qint64\<close>.
\<close>

type_synonym qint64 = "64 word"
type_synonym cint = "32 word"

record 'fs world =
  m_isCopying :: bool
  m_status :: string
  m_copiedSize :: qint64
  m_totalSize :: qint64
  m_tempDirToCleanup :: string
  m_deletingFilePath :: string
  disk :: "'fs"
  trace :: "event list"

definition emit :: "signal \<Rightarrow> 'fs world \<Rightarrow> 'fs world" where
  "emit sg w = w\<lparr>trace := trace w @ [Emit sg]\<rparr>"

definition thread_start :: "job \<Rightarrow> 'fs world \<Rightarrow> 'fs world" where
  "thread_start j w = w\<lparr>trace := trace w @ [ThreadStart j]\<rparr>"

definition called :: "qt_call \<Rightarrow> 'fs world \<Rightarrow> 'fs world" where
  "called c w = w\<lparr>trace := trace w @ [Qt c]\<rparr>"

subsection \<open>progressPercent\<close>

text \<open>
  \<open>qint64\<close> arithmetic as the compiled code performs it: the product wraps around at 64 bits
  (the overflow is undefined in C++; the model takes the two's complement result), the
  division truncates towards zero, and \<open>static_cast<int>\<close> keeps the low 32 bits.
\<close>

definition qint64_div :: "qint64 \<Rightarrow> qint64 \<Rightarrow> qint64" where
  "qint64_div a b = word_of_int (sint a sdiv sint b)"

definition static_cast_int :: "qint64 \<Rightarrow> cint" where
  "static_cast_int x = scast x"

definition progressPercent :: "'fs world \<Rightarrow> cint" where
  "progressPercent w =
     (if sint (m_totalSize w) \<le> 0 then 0
      else static_cast_int (qint64_div (m_copiedSize w * 100) (m_totalSize w)))"

subsection \<open>startCopy\<close>

definition startCopy :: "'fs qt \<Rightarrow> string \<Rightarrow> string \<Rightarrow> string \<Rightarrow> 'fs world \<Rightarrow> bool \<times> 'fs world" where
  "startCopy q source destination tempDirToCleanup w =
     (if m_isCopying w then
        (False, emit statusChanged (w\<lparr>m_status := ''Already copying...''\<rparr>))
      else
        let destDir = fileInfo_dir q destination;
            w1 = called (QDir_exists destDir) w;
            (ready, w2) =
              (if \<not> exists_dir q (disk w1) destDir then
                 (case mkpath q (disk w1) destDir of
                    (ok, fs) \<Rightarrow> (ok, called (QDir_mkpath destDir) (w1\<lparr>disk := fs\<rparr>)))
               else (True, w1))
        in
          if \<not> ready then
            let w3 = w2\<lparr>m_status := ''Failed to create destination directory.''\<rparr>;
                w4 = emit statusChanged w3;
                w5 = emit (copyFailed (m_status w4)) w4
            in (False, w5)
          else
            let w3 = w2\<lparr>m_tempDirToCleanup := tempDirToCleanup\<rparr>;
                w4 = w3\<lparr>m_isCopying := True, m_status := ''Starting copy...'',
                        m_copiedSize := 0, m_totalSize := 0\<rparr>;
                w5 = emit isCopyingChanged w4;
                w6 = emit statusChanged w5;
                w7 = emit progressChanged w6;
                w8 = emit totalSizeChanged w7;
                w9 = thread_start (doCopy source destination) w8
            in (True, w9))"

subsection \<open>startDelete and onDeleteFinished\<close>

definition startDelete :: "string \<Rightarrow> 'fs world \<Rightarrow> bool \<times> 'fs world" where
  "startDelete filePath w =
     (let w1 = w\<lparr>m_deletingFilePath := filePath, m_status := ''Starting delete...''\<rparr>;
          w2 = emit statusChanged w1;
          w3 = thread_start (doDelete filePath) w2
      in (True, w3))"

definition onDeleteFinished :: "bool \<Rightarrow> string \<Rightarrow> 'fs world \<Rightarrow> 'fs world" where
  "onDeleteFinished success message w =
     (let w1 = emit statusChanged (w\<lparr>m_status := message\<rparr>)
      in if success then emit (deleteSucceeded (m_deletingFilePath w1)) w1
         else emit (deleteFailed message) w1)"

subsection \<open>onCopyProgress\<close>

definition onCopyProgress :: "qint64 \<Rightarrow> qint64 \<Rightarrow> 'fs world \<Rightarrow> 'fs world" where
  "onCopyProgress copiedSize totalSize w =
     (let w1 = (if m_totalSize w \<noteq> totalSize
                then emit totalSizeChanged (w\<lparr>m_totalSize := totalSize\<rparr>) else w)
      in emit progressChanged (w1\<lparr>m_copiedSize := copiedSize\<rparr>))"

subsection \<open>cleanupTempDirectory\<close>

text \<open>The two range-for loops. A failed removal is logged and the loop goes on.\<close>

fun remove_files :: "'fs qt \<Rightarrow> string \<Rightarrow> string list \<Rightarrow> 'fs world \<Rightarrow> 'fs world" where
  "remove_files q dir [] w = w"
| "remove_files q dir (file # files) w =
     (let filePath = absoluteFilePath q dir file
      in case remove_file q (disk w) filePath of
           (ok, fs) \<Rightarrow> remove_files q dir files (called (QFile_remove filePath) (w\<lparr>disk := fs\<rparr>)))"

fun remove_subdirs :: "'fs qt \<Rightarrow> string \<Rightarrow> string list \<Rightarrow> 'fs world \<Rightarrow> 'fs world" where
  "remove_subdirs q dir [] w = w"
| "remove_subdirs q dir (subDir # dirs) w =
     (let subDirPath = absoluteFilePath q dir subDir
      in case removeRecursively q (disk w) subDirPath of
           (ok, fs) \<Rightarrow>
             remove_subdirs q dir dirs (called (QDir_removeRecursively subDirPath) (w\<lparr>disk := fs\<rparr>)))"

definition cleanupTempDirectory :: "'fs qt \<Rightarrow> string \<Rightarrow> 'fs world \<Rightarrow> 'fs world" where
  "cleanupTempDirectory q tempDir w =
     (let w1 = called (QDir_exists tempDir) w in
      if \<not> exists_dir q (disk w1) tempDir then w1
      else
        let files = entryList_Files q (disk w1) tempDir;
            w2 = remove_files q tempDir files (called (QDir_entryList_Files tempDir) w1);
            dirs = entryList_Dirs q (disk w2) tempDir;
            w3 = remove_subdirs q tempDir dirs (called (QDir_entryList_Dirs tempDir) w2)
        in case removeRecursively q (disk w3) tempDir of
             (ok, fs) \<Rightarrow>
               let w4 = called (QDir_removeRecursively tempDir) (w3\<lparr>disk := fs\<rparr>) in
               if \<not> ok then
                 let w5 = called (QDir_cdUp tempDir) w4;
                     parentDir = cdUp q (disk w5) tempDir;
                     dirName = fileName q tempDir
                 in case rmdir q (disk w5) parentDir dirName of
                      (ok', fs') \<Rightarrow> called (QDir_rmdir parentDir dirName) (w5\<lparr>disk := fs'\<rparr>)
               else w4)"

subsection \<open>onCopyFinished\<close>

definition onCopyFinished :: "'fs qt \<Rightarrow> bool \<Rightarrow> string \<Rightarrow> 'fs world \<Rightarrow> 'fs world" where
  "onCopyFinished q success message w =
     (let w1 = w\<lparr>m_isCopying := False, m_status := message\<rparr>;
          w2 = emit statusChanged (emit isCopyingChanged w1);
          w3 = (if m_tempDirToCleanup w2 \<noteq> []
                then (cleanupTempDirectory q (m_tempDirToCleanup w2) w2)\<lparr>m_tempDirToCleanup := []\<rparr>
                else w2)
      in if success then emit copySucceeded w3 else emit (copyFailed message) w3)"

subsection \<open>Image validation and image information\<close>

text \<open>
  The two progress labels are Chinese text in the source (``start validating'' and ``start
  processing''). They are kept as the UTF-8 bytes of the source literals.
\<close>

definition label_start_validation :: string where
  "label_start_validation =
     [CHR 0xE5, CHR 0xBC, CHR 0x80, CHR 0xE5, CHR 0xA7, CHR 0x8B,
      CHR 0xE6, CHR 0xA0, CHR 0xA1, CHR 0xE9, CHR 0xAA, CHR 0x8C]"

definition label_start_processing :: string where
  "label_start_processing =
     [CHR 0xE5, CHR 0xBC, CHR 0x80, CHR 0xE5, CHR 0xA7, CHR 0x8B,
      CHR 0xE5, CHR 0xA4, CHR 0x84, CHR 0xE7, CHR 0x90, CHR 0x86]"

definition startImageValidation :: "string \<Rightarrow> 'fs world \<Rightarrow> bool \<times> 'fs world" where
  "startImageValidation imagePath w =
     (let w1 = w\<lparr>m_status := ''Starting image validation...''\<rparr>;
          w2 = emit statusChanged w1;
          w3 = emit (validationProgress label_start_validation 0) w2;
          w4 = thread_start (doValidateImage imagePath) w3
      in (True, w4))"

definition onValidationFinished :: "bool \<Rightarrow> string \<Rightarrow> string \<Rightarrow> string \<Rightarrow> 'fs world \<Rightarrow> 'fs world" where
  "onValidationFinished success message imageName tarFilePath w =
     (let w1 = emit statusChanged (w\<lparr>m_status := message\<rparr>)
      in if success then emit (validationSucceeded imageName tarFilePath) w1
         else emit (validationFailed message) w1)"

definition startImageInfoExtraction :: "string \<Rightarrow> 'fs world \<Rightarrow> bool \<times> 'fs world" where
  "startImageInfoExtraction imagePath w =
     (if m_isCopying w then
        (False, emit statusChanged (w\<lparr>m_status := ''Already processing...''\<rparr>))
      else
        let w1 = w\<lparr>m_status := ''Extracting image info...''\<rparr>;
            w2 = emit statusChanged w1;
            w3 = thread_start (doExtractImageInfo imagePath) w2
        in (True, w3))"

definition onImageInfoExtracted :: "bool \<Rightarrow> string \<Rightarrow> string \<Rightarrow> string \<Rightarrow> 'fs world \<Rightarrow> 'fs world" where
  "onImageInfoExtracted success imageName androidVersion errorMessage w =
     (let w1 = w\<lparr>m_status := (if success then ''Image info extracted successfully''
                               else ''Failed to extract image info'')\<rparr>;
          w2 = emit statusChanged w1
      in emit (imageInfoExtracted success imageName androidVersion errorMessage) w2)"

definition startImageInfoAndValidation :: "string \<Rightarrow> 'fs world \<Rightarrow> bool \<times> 'fs world" where
  "startImageInfoAndValidation imagePath w =
     (if m_isCopying w then
        (False, emit statusChanged (w\<lparr>m_status := ''Already processing...''\<rparr>))
      else
        let w1 = w\<lparr>m_status := ''Processing image info and validation...''\<rparr>;
            w2 = emit statusChanged w1;
            w3 = emit (validationProgress label_start_processing 0) w2;
            w4 = thread_start (doExtractAndValidateImage imagePath) w3
        in (True, w4))"

definition onImageInfoAndValidationCompleted ::
  "bool \<Rightarrow> string \<Rightarrow> string \<Rightarrow> string \<Rightarrow> string \<Rightarrow> 'fs world \<Rightarrow> 'fs world" where
  "onImageInfoAndValidationCompleted success message imageName androidVersion tarFilePath w =
     (let w1 = w\<lparr>m_status := (if success then ''Image processing completed successfully''
                               else ''Failed to process image'')\<rparr>;
          w2 = emit statusChanged w1
      in emit (imageInfoAndValidationCompleted success message imageName androidVersion tarFilePath) w2)"

subsection \<open>getFileSize and getAvailableSpace\<close>

text \<open>
  The Qt calls of the two synchronous queries, again as parameters:

  \<^item> \<open>Q_OS_WIN\<close>: which branch of the \<open>#ifdef\<close> was compiled
  \<^item> \<open>fileInfo_exists fs p\<close>, \<open>fileInfo_size fs p\<close>, \<open>fileInfo_absoluteFilePath fs p\<close>:
    \<open>QFileInfo(p).exists()\<close>, \<open>.size()\<close>, \<open>.absoluteFilePath()\<close>
  \<^item> \<open>fromNativeSeparators p\<close>: \<open>QDir::fromNativeSeparators(p)\<close>
  \<^item> \<open>QDir_rootPath\<close>: \<open>QDir::rootPath()\<close>
  \<^item> \<open>storage_rootPath fs p\<close>, \<open>storage_isValid fs p\<close>, \<open>storage_isReady fs p\<close>,
    \<open>storage_bytesAvailable fs p\<close>: \<open>QStorageInfo(p).rootPath()\<close>, \<open>.isValid()\<close>,
    \<open>.isReady()\<close>, \<open>.bytesAvailable()\<close>

  A \<open>QString\<close> is modelled as the list of its characters: \<open>size()\<close> is \<open>length\<close>, \<open>at(1)\<close>
  is the second element and \<open>left(2)\<close> is \<open>take 2\<close>.
\<close>

record 'fs qt_info =
  Q_OS_WIN :: bool
  fileInfo_exists :: "'fs \<Rightarrow> string \<Rightarrow> bool"
  fileInfo_size :: "'fs \<Rightarrow> string \<Rightarrow> qint64"
  fileInfo_absoluteFilePath :: "'fs \<Rightarrow> string \<Rightarrow> string"
  fromNativeSeparators :: "string \<Rightarrow> string"
  QDir_rootPath :: string
  storage_rootPath :: "'fs \<Rightarrow> string \<Rightarrow> string"
  storage_isValid :: "'fs \<Rightarrow> string \<Rightarrow> bool"
  storage_isReady :: "'fs \<Rightarrow> string \<Rightarrow> bool"
  storage_bytesAvailable :: "'fs \<Rightarrow> string \<Rightarrow> qint64"

definition getFileSize :: "'fs qt_info \<Rightarrow> 'fs \<Rightarrow> string \<Rightarrow> qint64" where
  "getFileSize q fs filePath =
     (if \<not> fileInfo_exists q fs filePath then - 1 else fileInfo_size q fs filePath)"

definition getAvailableSpace :: "'fs qt_info \<Rightarrow> 'fs \<Rightarrow> string \<Rightarrow> qint64" where
  "getAvailableSpace q fs path =
     (let rootPath =
            (if Q_OS_WIN q then
               let p = fromNativeSeparators q path in
               if length p \<ge> 2 \<and> p ! 1 = CHR '':'' then take 2 p @ ''/''
               else
                 let abs = fromNativeSeparators q (fileInfo_absoluteFilePath q fs p) in
                 if length abs \<ge> 2 \<and> abs ! 1 = CHR '':'' then take 2 abs @ ''/''
                 else QDir_rootPath q
             else
               let rootPath = storage_rootPath q fs (if path = [] then QDir_rootPath q else path)
               in if rootPath = [] then QDir_rootPath q else rootPath)
      in if \<not> storage_isValid q fs rootPath \<or> \<not> storage_isReady q fs rootPath then 0
         else storage_bytesAvailable q fs rootPath)"

text \<open>
  The value of the local \<open>rootPath\<close> of \<open>getAvailableSpace\<close> at the point where
  \<open>QStorageInfo storageInfo(rootPath)\<close> is built.
\<close>

definition queried_root :: "'fs qt_info \<Rightarrow> 'fs \<Rightarrow> string \<Rightarrow> string" where
  "queried_root q fs path =
     (if Q_OS_WIN q then
        let p = fromNativeSeparators q path in
        if length p \<ge> 2 \<and> p ! 1 = CHR '':'' then take 2 p @ ''/''
        else
          let abs = fromNativeSeparators q (fileInfo_absoluteFilePath q fs p) in
          if length abs \<ge> 2 \<and> abs ! 1 = CHR '':'' then take 2 abs @ ''/''
          else QDir_rootPath q
      else
        let rootPath = storage_rootPath q fs (if path = [] then QDir_rootPath q else path)
        in if rootPath = [] then QDir_rootPath q else rootPath)"

subsection \<open>Calls in sequence\<close>

text \<open>
  The calls the control thread can deliver to the coordinator: the public operations, and the
  slots the worker's signals are connected to. \<open>run\<close> delivers a list of them in order.
\<close>

datatype call =
    StartCopy string string string
  | StartDelete string
  | StartImageValidation string
  | StartImageInfoExtraction string
  | StartImageInfoAndValidation string
  | OnCopyProgress qint64 qint64
  | OnCopyFinished bool string
  | OnDeleteFinished bool string
  | OnValidationFinished bool string string string
  | OnImageInfoExtracted bool string string string
  | OnImageInfoAndValidationCompleted bool string string string string

fun step :: "'fs qt \<Rightarrow> call \<Rightarrow> 'fs world \<Rightarrow> 'fs world" where
  "step q (StartCopy source destination tempDirToCleanup) w =
     snd (startCopy q source destination tempDirToCleanup w)"
| "step q (StartDelete filePath) w = snd (startDelete filePath w)"
| "step q (StartImageValidation imagePath) w = snd (startImageValidation imagePath w)"
| "step q (StartImageInfoExtraction imagePath) w = snd (startImageInfoExtraction imagePath w)"
| "step q (StartImageInfoAndValidation imagePath) w = snd (startImageInfoAndValidation imagePath w)"
| "step q (OnCopyProgress copiedSize totalSize) w = onCopyProgress copiedSize totalSize w"
| "step q (OnCopyFinished success message) w = onCopyFinished q success message w"
| "step q (OnDeleteFinished success message) w = onDeleteFinished success message w"
| "step q (OnValidationFinished success message imageName tarFilePath) w =
     onValidationFinished success message imageName tarFilePath w"
| "step q (OnImageInfoExtracted success imageName androidVersion errorMessage) w =
     onImageInfoExtracted success imageName androidVersion errorMessage w"
| "step q (OnImageInfoAndValidationCompleted success message imageName androidVersion tarFilePath) w =
     onImageInfoAndValidationCompleted success message imageName androidVersion tarFilePath w"

fun run :: "'fs qt \<Rightarrow> call list \<Rightarrow> 'fs world \<Rightarrow> 'fs world" where
  "run q [] w = w"
| "run q (c # cs) w = run q cs (step q c w)"

fun is_OnCopyFinished :: "call \<Rightarrow> bool" where
  "is_OnCopyFinished (OnCopyFinished success message) = True"
| "is_OnCopyFinished c = False"

fun is_StartDelete :: "call \<Rightarrow> bool" where
  "is_StartDelete (StartDelete filePath) = True"
| "is_StartDelete c = False"

fun is_delete_call :: "call \<Rightarrow> bool" where
  "is_delete_call (StartDelete filePath) = True"
| "is_delete_call (OnDeleteFinished success message) = True"
| "is_delete_call c = False"

subsection \<open>Reading a trace\<close>

primrec emitted :: "event list \<Rightarrow> signal list" where
  "emitted [] = []"
| "emitted (e # es) = (case e of Emit sg \<Rightarrow> sg # emitted es | _ \<Rightarrow> emitted es)"

primrec started :: "event list \<Rightarrow> job list" where
  "started [] = []"
| "started (e # es) = (case e of ThreadStart j \<Rightarrow> j # started es | _ \<Rightarrow> started es)"

primrec qt_calls :: "event list \<Rightarrow> qt_call list" where
  "qt_calls [] = []"
| "qt_calls (e # es) = (case e of Qt c \<Rightarrow> c # qt_calls es | _ \<Rightarrow> qt_calls es)"

text \<open>The events a call added to the trace it found.\<close>

definition since :: "'fs world \<Rightarrow> 'fs world \<Rightarrow> event list" where
  "since w w' = drop (length (trace w)) (trace w')"

text \<open>
  \<open>cleanupTempDirectory\<close> begins with \<open>dir.exists()\<close> and asks it nowhere else, so the
  directories probed in a list of Qt calls are the directories it was entered with.
\<close>

fun cleanup_entries :: "qt_call list \<Rightarrow> string list" where
  "cleanup_entries [] = []"
| "cleanup_entries (QDir_exists d # cs) = d # cleanup_entries cs"
| "cleanup_entries (c # cs) = cleanup_entries cs"

text \<open>The file system after each of the two loops of \<open>cleanupTempDirectory\<close>.\<close>

definition after_remove_files :: "'fs qt \<Rightarrow> string \<Rightarrow> string list \<Rightarrow> 'fs \<Rightarrow> 'fs" where
  "after_remove_files q dir files fs =
     foldl (\<lambda>fs file. snd (remove_file q fs (absoluteFilePath q dir file))) fs files"

definition after_remove_subdirs :: "'fs qt \<Rightarrow> string \<Rightarrow> string list \<Rightarrow> 'fs \<Rightarrow> 'fs" where
  "after_remove_subdirs q dir dirs fs =
     foldl (\<lambda>fs subDir. snd (removeRecursively q fs (absoluteFilePath q dir subDir))) fs dirs"

text \<open>
  What \<open>cleanupTempDirectory\<close> does to the file system and which Qt calls it makes, read off
  a run of it. Neither depends on the members.
\<close>

definition cleanup_disk :: "'fs qt \<Rightarrow> string \<Rightarrow> 'fs world \<Rightarrow> 'fs" where
  "cleanup_disk q tempDir w = disk (cleanupTempDirectory q tempDir w)"

definition cleanup_calls :: "'fs qt \<Rightarrow> string \<Rightarrow> 'fs world \<Rightarrow> qt_call list" where
  "cleanup_calls q tempDir w = qt_calls (since w (cleanupTempDirectory q tempDir w))"

section \<open>An in-memory file system\<close>

text \<open>
  A small implementation of the Qt interface, to run the coordinator on concrete inputs. The
  file system is a list of absolute paths, each a regular file or a directory, and a list of
  paths that are held open: a held path cannot be removed, nor can a directory above it. The
  general theorems hold for every implementation of the interface; this one only supplies
  their examples.
\<close>

datatype node = RegularFile | Directory

type_synonym mem_fs = "(string \<times> node) list \<times> string list"

definition under :: "string \<Rightarrow> string \<Rightarrow> bool" where
  "under d p = (p = d \<or> take (length d + 1) p = d @ ''/'')"

definition child_name :: "string \<Rightarrow> string \<Rightarrow> string option" where
  "child_name d p =
     (let n = drop (length d + 1) p
      in if take (length d + 1) p = d @ ''/'' \<and> n \<noteq> [] \<and> CHR ''/'' \<notin> set n
         then Some n else None)"

definition mem_entryList :: "node \<Rightarrow> mem_fs \<Rightarrow> string \<Rightarrow> string list" where
  "mem_entryList k fs d =
     List.map_filter (\<lambda>(p, k'). if k' = k then child_name d p else None) (fst fs)"

definition held :: "mem_fs \<Rightarrow> string \<Rightarrow> bool" where
  "held fs p = list_ex (\<lambda>b. under p b \<and> b \<in> fst ` set (fst fs)) (snd fs)"

definition mem_exists_dir :: "mem_fs \<Rightarrow> string \<Rightarrow> bool" where
  "mem_exists_dir fs d = ((d, Directory) \<in> set (fst fs))"

definition mem_remove_file :: "mem_fs \<Rightarrow> string \<Rightarrow> bool \<times> mem_fs" where
  "mem_remove_file fs p =
     (if (p, RegularFile) \<in> set (fst fs) \<and> \<not> held fs p
      then (True, (filter (\<lambda>e. fst e \<noteq> p) (fst fs), snd fs)) else (False, fs))"

definition mem_removeRecursively :: "mem_fs \<Rightarrow> string \<Rightarrow> bool \<times> mem_fs" where
  "mem_removeRecursively fs d =
     (let kept = filter (\<lambda>e. \<not> under d (fst e) \<or> held fs (fst e)) (fst fs)
      in (\<not> list_ex (\<lambda>e. under d (fst e)) kept, (kept, snd fs)))"

definition mem_rmdir :: "mem_fs \<Rightarrow> string \<Rightarrow> string \<Rightarrow> bool \<times> mem_fs" where
  "mem_rmdir fs d n =
     (let p = d @ ''/'' @ n
      in if n \<noteq> [] \<and> (p, Directory) \<in> set (fst fs) \<and> \<not> held fs p
            \<and> \<not> list_ex (\<lambda>e. under p (fst e) \<and> fst e \<noteq> p) (fst fs)
         then (True, (filter (\<lambda>e. fst e \<noteq> p) (fst fs), snd fs)) else (False, fs))"

definition mem_dirname :: "string \<Rightarrow> string" where
  "mem_dirname p =
     (let r = rev (drop 1 (dropWhile (\<lambda>c. c \<noteq> CHR ''/'') (rev p)))
      in if r = [] then ''/'' else r)"

definition mem_fileName :: "string \<Rightarrow> string" where
  "mem_fileName p = rev (takeWhile (\<lambda>c. c \<noteq> CHR ''/'') (rev p))"

definition mem_cdUp :: "mem_fs \<Rightarrow> string \<Rightarrow> string" where
  "mem_cdUp fs d = (if mem_exists_dir fs (mem_dirname d) then mem_dirname d else d)"

definition ancestors :: "string \<Rightarrow> string list" where
  "ancestors d = [take i d. i \<leftarrow> [1..<length d], d ! i = CHR ''/'']"

text \<open>\<open>mkpath\<close> fails when a regular file is in the way, and creates every missing directory otherwise.\<close>

definition mem_mkpath :: "mem_fs \<Rightarrow> string \<Rightarrow> bool \<times> mem_fs" where
  "mem_mkpath fs d =
     (let ps = ancestors d @ [d]
      in if list_ex (\<lambda>a. (a, RegularFile) \<in> set (fst fs)) ps then (False, fs)
         else (True, (fst fs @ map (\<lambda>a. (a, Directory))
                                   (filter (\<lambda>a. (a, Directory) \<notin> set (fst fs)) ps), snd fs)))"

definition mem_qt :: "mem_fs qt" where
  "mem_qt = \<lparr> exists_dir = mem_exists_dir, mkpath = mem_mkpath,
      entryList_Files = mem_entryList RegularFile, entryList_Dirs = mem_entryList Directory,
      absoluteFilePath = (\<lambda>d n. d @ ''/'' @ n), remove_file = mem_remove_file,
      removeRecursively = mem_removeRecursively, cdUp = mem_cdUp, fileName = mem_fileName,
      rmdir = mem_rmdir, fileInfo_dir = mem_dirname \<rparr>"

text \<open>
  A staging directory with one file and one subdirectory, and a destination directory. In
  \<open>held_fs\<close> the staging directory itself is held open.
\<close>

definition stage_entries :: "(string \<times> node) list" where
  "stage_entries =
     [(''/tmp'', Directory), (''/tmp/stage1'', Directory),
      (''/tmp/stage1/a.img'', RegularFile), (''/tmp/stage1/sub'', Directory),
      (''/tmp/stage1/sub/b.bin'', RegularFile), (''/dst'', Directory)]"

definition free_fs :: mem_fs where
  "free_fs = (stage_entries, [])"

definition held_fs :: mem_fs where
  "held_fs = (stage_entries, [''/tmp/stage1''])"

definition fresh :: "'fs \<Rightarrow> 'fs world" where
  "fresh fs = \<lparr> m_isCopying = False, m_status = [], m_copiedSize = 0, m_totalSize = 0,
      m_tempDirToCleanup = [], m_deletingFilePath = [], disk = fs, trace = [] \<rparr>"

text \<open>
  A storage interface with one volume mounted at \<open>/\<close> that has 4096 bytes available; an
  invalid \<open>QStorageInfo\<close> reports \<open>-1\<close>, as Qt documents. \<open>win_info\<close> is the same volume seen
  through the drive-letter branch, mounted at \<open>C:/\<close>.
\<close>

definition unix_info :: "unit qt_info" where
  "unix_info = \<lparr> Q_OS_WIN = False,
      fileInfo_exists = (\<lambda>fs p. p = ''/data/a.img''),
      fileInfo_size = (\<lambda>fs p. if p = ''/data/a.img'' then 1024 else 0),
      fileInfo_absoluteFilePath = (\<lambda>fs p. if take 1 p = ''/'' then p else ''/'' @ p),
      fromNativeSeparators = (\<lambda>p. p),
      QDir_rootPath = ''/'',
      storage_rootPath = (\<lambda>fs p. if take 1 p = ''/'' then ''/'' else []),
      storage_isValid = (\<lambda>fs r. r = ''/''),
      storage_isReady = (\<lambda>fs r. r = ''/''),
      storage_bytesAvailable = (\<lambda>fs r. if r = ''/'' then 4096 else - 1) \<rparr>"

definition win_info :: "unit qt_info" where
  "win_info = \<lparr> Q_OS_WIN = True,
      fileInfo_exists = (\<lambda>fs p. False),
      fileInfo_size = (\<lambda>fs p. 0),
      fileInfo_absoluteFilePath = (\<lambda>fs p. ''C:/'' @ p),
      fromNativeSeparators = map (\<lambda>c. if c = CHR 0x5C then CHR ''/'' else c),
      QDir_rootPath = ''C:/'',
      storage_rootPath = (\<lambda>fs p. take 3 p),
      storage_isValid = (\<lambda>fs r. r = ''C:/''),
      storage_isReady = (\<lambda>fs r. r = ''C:/''),
      storage_bytesAvailable = (\<lambda>fs r. if r = ''C:/'' then 4096 else - 1) \<rparr>"

text \<open>
  The scenario of the specification: a copy to \<open>/dst/new/b.img\<close> staged in \<open>/tmp/stage1\<close>,
  three progress events with a delete started in between, and the world just before the
  copy's terminal result arrives.
\<close>

definition scenario_start :: "bool \<times> mem_fs world" where
  "scenario_start = startCopy mem_qt ''/src/a.img'' ''/dst/new/b.img'' ''/tmp/stage1'' (fresh free_fs)"

definition scenario_calls :: "call list" where
  "scenario_calls =
     [OnCopyProgress 0 0, OnCopyProgress 512 1024, StartDelete ''/tmp/stale.img'',
      OnCopyProgress 1024 1024]"

definition scenario_world :: "mem_fs world" where
  "scenario_world = run mem_qt scenario_calls (snd scenario_start)"

section \<open>Lemmas\<close>

subsection \<open>Traces\<close>

lemma emitted_append: "emitted (xs @ ys) = emitted xs @ emitted ys"
  by (induction xs) (auto split: event.splits)

lemma started_append: "started (xs @ ys) = started xs @ started ys"
  by (induction xs) (auto split: event.splits)

lemma qt_calls_append: "qt_calls (xs @ ys) = qt_calls xs @ qt_calls ys"
  by (induction xs) (auto split: event.splits)

lemma qt_calls_map_Qt: "qt_calls (map Qt cs) = cs"
  by (induction cs) auto

lemma emitted_map_Qt: "emitted (map Qt cs) = []"
  by (induction cs) auto

lemma started_map_Qt: "started (map Qt cs) = []"
  by (induction cs) auto

lemma cleanup_entries_append:
  "cleanup_entries (xs @ ys) = cleanup_entries xs @ cleanup_entries ys"
  by (induction xs rule: cleanup_entries.induct) auto

lemma cleanup_entries_removals:
  "cleanup_entries (map (\<lambda>x. QFile_remove (f x)) xs) = []"
  "cleanup_entries (map (\<lambda>x. QDir_removeRecursively (f x)) xs) = []"
  by (induction xs) auto

lemma remove_files_eq:
  "remove_files q dir files w =
     w\<lparr>disk := after_remove_files q dir files (disk w),
       trace := trace w @ map (\<lambda>file. Qt (QFile_remove (absoluteFilePath q dir file))) files\<rparr>"
proof (induction files arbitrary: w)
  case Nil
  show ?case by (simp add: after_remove_files_def)
next
  case (Cons f files)
  show ?case
    by (simp add: Cons.IH after_remove_files_def called_def Let_def split: prod.splits)
qed

lemma remove_subdirs_eq:
  "remove_subdirs q dir dirs w =
     w\<lparr>disk := after_remove_subdirs q dir dirs (disk w),
       trace := trace w
         @ map (\<lambda>subDir. Qt (QDir_removeRecursively (absoluteFilePath q dir subDir))) dirs\<rparr>"
proof (induction dirs arbitrary: w)
  case Nil
  show ?case by (simp add: after_remove_subdirs_def)
next
  case (Cons subDir dirs)
  show ?case
    by (simp add: Cons.IH after_remove_subdirs_def called_def Let_def split: prod.splits)
qed

lemma cleanup_missing:
  "\<not> exists_dir q (disk w) tempDir \<Longrightarrow>
     cleanupTempDirectory q tempDir w = w\<lparr>trace := trace w @ [Qt (QDir_exists tempDir)]\<rparr>"
  by (simp add: cleanupTempDirectory_def called_def)

lemma cleanup_present:
  assumes "exists_dir q (disk w) tempDir"
  shows "(let files = entryList_Files q (disk w) tempDir;
              fs1 = after_remove_files q tempDir files (disk w);
              dirs = entryList_Dirs q fs1 tempDir;
              fs2 = after_remove_subdirs q tempDir dirs fs1;
              ok = fst (removeRecursively q fs2 tempDir);
              fs3 = snd (removeRecursively q fs2 tempDir);
              parentDir = cdUp q fs3 tempDir;
              dirName = fileName q tempDir
          in cleanupTempDirectory q tempDir w =
               w\<lparr>disk := (if ok then fs3 else snd (rmdir q fs3 parentDir dirName)),
                 trace := trace w
                   @ [Qt (QDir_exists tempDir), Qt (QDir_entryList_Files tempDir)]
                   @ map (\<lambda>file. Qt (QFile_remove (absoluteFilePath q tempDir file))) files
                   @ [Qt (QDir_entryList_Dirs tempDir)]
                   @ map (\<lambda>subDir. Qt (QDir_removeRecursively (absoluteFilePath q tempDir subDir))) dirs
                   @ [Qt (QDir_removeRecursively tempDir)]
                   @ (if ok then [] else [Qt (QDir_cdUp tempDir), Qt (QDir_rmdir parentDir dirName)])\<rparr>)"
  using assms
  by (simp add: cleanupTempDirectory_def called_def remove_files_eq remove_subdirs_eq Let_def
           split: prod.splits)

text \<open>cleanupTempDirectory touches the file system and the trace only, and appends Qt calls only.\<close>

lemma cleanup_shape:
  "\<exists>fs cs. cleanup_entries cs = [tempDir] \<and>
     (\<forall>w. disk w = fs0 \<longrightarrow>
        cleanupTempDirectory q tempDir w = w\<lparr>disk := fs, trace := trace w @ map Qt cs\<rparr>)"
proof (cases "exists_dir q fs0 tempDir")
  case False
  have "\<forall>w. disk w = fs0 \<longrightarrow>
          cleanupTempDirectory q tempDir w = w\<lparr>disk := fs0, trace := trace w @ map Qt [QDir_exists tempDir]\<rparr>"
    using False by (auto simp: cleanup_missing)
  then show ?thesis
    by (intro exI [of _ fs0] exI [of _ "[QDir_exists tempDir]"]) simp
next
  case True
  define files where "files = entryList_Files q fs0 tempDir"
  define fs1 where "fs1 = after_remove_files q tempDir files fs0"
  define dirs where "dirs = entryList_Dirs q fs1 tempDir"
  define fs2 where "fs2 = after_remove_subdirs q tempDir dirs fs1"
  define ok where "ok = fst (removeRecursively q fs2 tempDir)"
  define fs3 where "fs3 = snd (removeRecursively q fs2 tempDir)"
  define cs where "cs = [QDir_exists tempDir, QDir_entryList_Files tempDir]
       @ map (\<lambda>file. QFile_remove (absoluteFilePath q tempDir file)) files
       @ [QDir_entryList_Dirs tempDir]
       @ map (\<lambda>subDir. QDir_removeRecursively (absoluteFilePath q tempDir subDir)) dirs
       @ [QDir_removeRecursively tempDir]
       @ (if ok then []
          else [QDir_cdUp tempDir, QDir_rmdir (cdUp q fs3 tempDir) (fileName q tempDir)])"
  define fs where "fs = (if ok then fs3 else snd (rmdir q fs3 (cdUp q fs3 tempDir) (fileName q tempDir)))"
  have entries: "cleanup_entries cs = [tempDir]"
    by (simp add: cs_def cleanup_entries_append cleanup_entries_removals)
  have "cleanupTempDirectory q tempDir w = w\<lparr>disk := fs, trace := trace w @ map Qt cs\<rparr>"
    if "disk w = fs0" for w
    using cleanup_present [of q w tempDir] True that
    by (simp add: Let_def files_def fs1_def dirs_def fs2_def ok_def fs3_def cs_def fs_def comp_def)
  with entries show ?thesis by blast
qed

lemma cleanup_frame:
  "cleanupTempDirectory q tempDir w =
     w\<lparr>disk := cleanup_disk q tempDir w, trace := trace w @ map Qt (cleanup_calls q tempDir w)\<rparr>"
  and cleanup_calls_entries: "cleanup_entries (cleanup_calls q tempDir w) = [tempDir]"
proof -
  obtain fs cs where e: "cleanup_entries cs = [tempDir]"
    and c: "cleanupTempDirectory q tempDir w = w\<lparr>disk := fs, trace := trace w @ map Qt cs\<rparr>"
    using cleanup_shape [of tempDir "disk w" q] by blast
  have d: "cleanup_disk q tempDir w = fs" by (simp add: cleanup_disk_def c)
  have k: "cleanup_calls q tempDir w = cs"
    by (simp add: cleanup_calls_def c since_def qt_calls_map_Qt)
  show "cleanupTempDirectory q tempDir w =
     w\<lparr>disk := cleanup_disk q tempDir w, trace := trace w @ map Qt (cleanup_calls q tempDir w)\<rparr>"
    by (simp add: d k c)
  show "cleanup_entries (cleanup_calls q tempDir w) = [tempDir]"
    by (simp add: k e)
qed

lemma cleanup_disk_only:
  assumes "disk w = disk v"
  shows "cleanup_disk q tempDir w = cleanup_disk q tempDir v"
    and "cleanup_calls q tempDir w = cleanup_calls q tempDir v"
proof -
  obtain fs cs where
    c: "\<forall>u. disk u = disk v \<longrightarrow>
          cleanupTempDirectory q tempDir u = u\<lparr>disk := fs, trace := trace u @ map Qt cs\<rparr>"
    using cleanup_shape [of tempDir "disk v" q] by blast
  have w: "cleanupTempDirectory q tempDir w = w\<lparr>disk := fs, trace := trace w @ map Qt cs\<rparr>"
    and v: "cleanupTempDirectory q tempDir v = v\<lparr>disk := fs, trace := trace v @ map Qt cs\<rparr>"
    using c assms by simp_all
  show "cleanup_disk q tempDir w = cleanup_disk q tempDir v"
    by (simp add: cleanup_disk_def w v)
  show "cleanup_calls q tempDir w = cleanup_calls q tempDir v"
    by (simp add: cleanup_calls_def w v since_def qt_calls_map_Qt)
qed

lemma onCopyFinished_eq:
  "onCopyFinished q success message w =
     (let d = m_tempDirToCleanup w;
          result = (if success then copySucceeded else copyFailed message)
      in if d = [] then
           w\<lparr>m_isCopying := False, m_status := message,
             trace := trace w @ [Emit isCopyingChanged, Emit statusChanged, Emit result]\<rparr>
         else
           w\<lparr>m_isCopying := False, m_status := message, m_tempDirToCleanup := [],
             disk := cleanup_disk q d w,
             trace := trace w @ [Emit isCopyingChanged, Emit statusChanged]
                        @ map Qt (cleanup_calls q d w) @ [Emit result]\<rparr>)"
proof (cases "m_tempDirToCleanup w = []")
  case True
  then show ?thesis by (simp add: onCopyFinished_def emit_def Let_def)
next
  case False
  let ?w2 = "w\<lparr>m_isCopying := False, m_status := message,
               trace := trace w @ [Emit isCopyingChanged, Emit statusChanged]\<rparr>"
  have same: "cleanup_disk q (m_tempDirToCleanup w) ?w2 = cleanup_disk q (m_tempDirToCleanup w) w"
    "cleanup_calls q (m_tempDirToCleanup w) ?w2 = cleanup_calls q (m_tempDirToCleanup w) w"
    by (rule cleanup_disk_only, simp)+
  have "onCopyFinished q success message w =
          emit (if success then copySucceeded else copyFailed message)
            ((cleanupTempDirectory q (m_tempDirToCleanup w) ?w2)\<lparr>m_tempDirToCleanup := []\<rparr>)"
    using False by (simp add: onCopyFinished_def emit_def Let_def)
  also have "cleanupTempDirectory q (m_tempDirToCleanup w) ?w2 =
      ?w2\<lparr>disk := cleanup_disk q (m_tempDirToCleanup w) w,
          trace := trace ?w2 @ map Qt (cleanup_calls q (m_tempDirToCleanup w) w)\<rparr>"
    using cleanup_frame [of q "m_tempDirToCleanup w" ?w2] by (simp only: same)
  finally show ?thesis using False by (simp add: emit_def Let_def)
qed


lemma step_keeps_copy:
  assumes "m_isCopying w" and "\<not> is_OnCopyFinished c"
  shows "m_isCopying (step q c w) \<and> m_tempDirToCleanup (step q c w) = m_tempDirToCleanup w"
  using assms
  by (cases c)
     (simp_all add: startCopy_def startDelete_def startImageValidation_def
        startImageInfoExtraction_def startImageInfoAndValidation_def onCopyProgress_def
        onDeleteFinished_def onValidationFinished_def onImageInfoExtracted_def
        onImageInfoAndValidationCompleted_def emit_def thread_start_def Let_def)

lemma run_keeps_copy:
  assumes "m_isCopying w" and "\<forall>c \<in> set cs. \<not> is_OnCopyFinished c"
  shows "m_isCopying (run q cs w) \<and> m_tempDirToCleanup (run q cs w) = m_tempDirToCleanup w"
  using assms
proof (induction cs arbitrary: w)
  case Nil
  then show ?case by simp
next
  case (Cons c cs)
  have s: "m_isCopying (step q c w)" "m_tempDirToCleanup (step q c w) = m_tempDirToCleanup w"
    using step_keeps_copy [of w c q] Cons.prems by simp_all
  have "m_isCopying (run q cs (step q c w)) \<and>
        m_tempDirToCleanup (run q cs (step q c w)) = m_tempDirToCleanup (step q c w)"
    using Cons.IH [of "step q c w"] s(1) Cons.prems(2) by simp
  then show ?case by (simp add: s(2))
qed

lemma startCopy_accepted:
  assumes "fst (startCopy q source destination tempDirToCleanup w)"
  shows "m_isCopying (snd (startCopy q source destination tempDirToCleanup w))"
    and "m_tempDirToCleanup (snd (startCopy q source destination tempDirToCleanup w)) = tempDirToCleanup"
  using assms
  by (auto simp: startCopy_def emit_def thread_start_def called_def Let_def
           split: if_splits prod.splits)

subsection \<open>Deletes in a sequence of calls\<close>

lemma step_keeps_delete_path:
  assumes "\<not> is_StartDelete c"
  shows "m_deletingFilePath (step q c w) = m_deletingFilePath w"
proof (cases c)
  case (StartCopy source destination tempDirToCleanup)
  then show ?thesis
    by (auto simp: startCopy_def emit_def thread_start_def called_def Let_def
             split: prod.splits if_splits)
next
  case (OnCopyFinished success message)
  then show ?thesis by (simp add: onCopyFinished_eq Let_def)
qed (use assms in \<open>simp_all add: startImageValidation_def
        startImageInfoExtraction_def startImageInfoAndValidation_def onCopyProgress_def
        onDeleteFinished_def onValidationFinished_def onImageInfoExtracted_def
        onImageInfoAndValidationCompleted_def emit_def thread_start_def Let_def\<close>)

lemma run_keeps_delete_path:
  assumes "\<forall>c \<in> set cs. \<not> is_StartDelete c"
  shows "m_deletingFilePath (run q cs w) = m_deletingFilePath w"
  using assms
proof (induction cs arbitrary: w)
  case Nil
  then show ?case by simp
next
  case (Cons c cs)
  have "m_deletingFilePath (run q cs (step q c w)) = m_deletingFilePath (step q c w)"
    using Cons.IH [of "step q c w"] Cons.prems by simp
  also have "\<dots> = m_deletingFilePath w"
    using step_keeps_delete_path [of c q w] Cons.prems by simp
  finally show ?case by simp
qed

lemma step_delete_frame:
  assumes "is_delete_call c"
  shows "m_isCopying (step q c w) = m_isCopying w \<and> m_copiedSize (step q c w) = m_copiedSize w
     \<and> m_totalSize (step q c w) = m_totalSize w
     \<and> m_tempDirToCleanup (step q c w) = m_tempDirToCleanup w \<and> disk (step q c w) = disk w"
  using assms
  by (cases c) (simp_all add: startDelete_def onDeleteFinished_def emit_def thread_start_def Let_def)

lemma run_delete_frame:
  assumes "\<forall>c \<in> set cs. is_delete_call c"
  shows "m_isCopying (run q cs w) = m_isCopying w \<and> m_copiedSize (run q cs w) = m_copiedSize w
     \<and> m_totalSize (run q cs w) = m_totalSize w
     \<and> m_tempDirToCleanup (run q cs w) = m_tempDirToCleanup w \<and> disk (run q cs w) = disk w"
  using assms
proof (induction cs arbitrary: w)
  case Nil
  then show ?case by simp
next
  case (Cons c cs)
  have s: "m_isCopying (step q c w) = m_isCopying w \<and> m_copiedSize (step q c w) = m_copiedSize w
     \<and> m_totalSize (step q c w) = m_totalSize w
     \<and> m_tempDirToCleanup (step q c w) = m_tempDirToCleanup w \<and> disk (step q c w) = disk w"
    using step_delete_frame [of c q w] Cons.prems by simp
  show ?case using Cons.IH [of "step q c w"] Cons.prems s by simp
qed

section \<open>The claims\<close>

subsection \<open>The terminal result of a copy\<close>

text \<open>
  Claim C1. When the terminal result \<open>(success, message)\<close> of a copy is consumed, the busy
  flag is cleared and the status becomes \<open>message\<close>, whatever \<open>success\<close> is. The handler
  emits \<open>isCopyingChanged\<close> and \<open>statusChanged\<close>; then, if the recorded temporary directory
  is not empty, \<open>cleanupTempDirectory\<close> runs on it exactly once and the record is cleared,
  whatever the cleanup achieved; and last of all \<open>copySucceeded\<close> or \<open>copyFailed(message)\<close>
  is emitted, once. No thread is started and the sizes and the delete path are untouched.
  The recorded directory is the one \<open>startCopy\<close> was given: no call other than the terminal
  result of the copy changes it while the copy is in flight.
\<close>

theorem onCopyFinished_cleans_then_reports:
  "(let w' = onCopyFinished q success message w;
        d = m_tempDirToCleanup w;
        result = (if success then copySucceeded else copyFailed message)
    in m_isCopying w' = False \<and> m_status w' = message \<and> m_tempDirToCleanup w' = []
       \<and> m_copiedSize w' = m_copiedSize w \<and> m_totalSize w' = m_totalSize w
       \<and> m_deletingFilePath w' = m_deletingFilePath w
       \<and> trace w' = trace w @ since w w'
       \<and> emitted (since w w') = [isCopyingChanged, statusChanged, result]
       \<and> started (since w w') = []
       \<and> (d = [] \<longrightarrow>
            disk w' = disk w
            \<and> since w w' = [Emit isCopyingChanged, Emit statusChanged, Emit result])
       \<and> (d \<noteq> [] \<longrightarrow>
            disk w' = cleanup_disk q d w
            \<and> since w w' = [Emit isCopyingChanged, Emit statusChanged]
                             @ map Qt (cleanup_calls q d w) @ [Emit result]
            \<and> cleanup_entries (qt_calls (since w w')) = [d]))
   \<and> (fst (startCopy q source destination tempDirToCleanup w0)
         \<and> (\<forall>c \<in> set cs. \<not> is_OnCopyFinished c) \<longrightarrow>
       m_tempDirToCleanup (run q cs (snd (startCopy q source destination tempDirToCleanup w0)))
         = tempDirToCleanup)"
proof -
  have life: "m_tempDirToCleanup (run q cs (snd (startCopy q source destination tempDirToCleanup w0)))
         = tempDirToCleanup"
    if "fst (startCopy q source destination tempDirToCleanup w0)"
      and "\<forall>c \<in> set cs. \<not> is_OnCopyFinished c"
    using run_keeps_copy [OF startCopy_accepted(1) [OF that(1)] that(2), of q]
      startCopy_accepted(2) [OF that(1)] by simp
  show ?thesis
  proof (cases "m_tempDirToCleanup w = []")
    case True
    with life show ?thesis
      by (simp add: onCopyFinished_eq [of q success message w] since_def Let_def)
  next
    case False
    with life show ?thesis
      by (simp add: onCopyFinished_eq [of q success message w] since_def Let_def
            emitted_append started_append qt_calls_append emitted_map_Qt started_map_Qt
            qt_calls_map_Qt cleanup_calls_entries)
  qed
qed

text \<open>
  The scenario of the specification, up to the terminal result \<open>(true, "done")\<close>: the staging
  directory is emptied and removed between the state notifications and \<open>copySucceeded\<close>.
\<close>

theorem onCopyFinished_cleans_then_reports_witness:
  "fst scenario_start
   \<and> list_all (\<lambda>c. \<not> is_OnCopyFinished c) scenario_calls
   \<and> m_tempDirToCleanup scenario_world = ''/tmp/stage1''
   \<and> m_tempDirToCleanup scenario_world \<noteq> []
   \<and> since scenario_world (onCopyFinished mem_qt True ''done'' scenario_world) =
       [Emit isCopyingChanged, Emit statusChanged,
        Qt (QDir_exists ''/tmp/stage1''), Qt (QDir_entryList_Files ''/tmp/stage1''),
        Qt (QFile_remove ''/tmp/stage1/a.img''), Qt (QDir_entryList_Dirs ''/tmp/stage1''),
        Qt (QDir_removeRecursively ''/tmp/stage1/sub''),
        Qt (QDir_removeRecursively ''/tmp/stage1''), Emit copySucceeded]
   \<and> m_isCopying (onCopyFinished mem_qt True ''done'' scenario_world) = False
   \<and> m_status (onCopyFinished mem_qt True ''done'' scenario_world) = ''done''
   \<and> m_tempDirToCleanup (onCopyFinished mem_qt True ''done'' scenario_world) = []"
proof -
  have a: "fst scenario_start" by code_simp
  have b: "\<forall>c \<in> set scenario_calls. \<not> is_OnCopyFinished c" by code_simp
  note T = onCopyFinished_cleans_then_reports
    [of mem_qt True "''done''" scenario_world "''/src/a.img''" "''/dst/new/b.img''"
        "''/tmp/stage1''" "fresh free_fs" scenario_calls]
  have h: "m_tempDirToCleanup scenario_world = ''/tmp/stage1''"
    using T a b by (simp add: scenario_world_def scenario_start_def)
  have c: "cleanup_calls mem_qt ''/tmp/stage1'' scenario_world =
      [QDir_exists ''/tmp/stage1'', QDir_entryList_Files ''/tmp/stage1'',
       QFile_remove ''/tmp/stage1/a.img'', QDir_entryList_Dirs ''/tmp/stage1'',
       QDir_removeRecursively ''/tmp/stage1/sub'', QDir_removeRecursively ''/tmp/stage1'']"
    by code_simp
  have b': "list_all (\<lambda>c. \<not> is_OnCopyFinished c) scenario_calls"
    using b by (simp add: list_all_iff)
  show ?thesis using T a b' h c by (simp add: Let_def)
qed

subsection \<open>startCopy\<close>

text \<open>
  Claim C2. A call of \<open>startCopy\<close> made while the busy flag is set returns false and sets the
  status to \<open>"Already copying..."\<close>. The busy flag, the copied and total sizes, the recorded
  temporary directory, the delete path and the file system stay as they were; the only event
  is \<open>statusChanged\<close>, and no thread is started.
\<close>

theorem startCopy_rejected_while_busy:
  assumes "m_isCopying w"
  shows "(let r = startCopy q source destination tempDirToCleanup w; w' = snd r
          in fst r = False
             \<and> w' = w\<lparr>m_status := ''Already copying...'',
                       trace := trace w @ [Emit statusChanged]\<rparr>
             \<and> m_status w' = ''Already copying...''
             \<and> m_isCopying w' = m_isCopying w
             \<and> m_copiedSize w' = m_copiedSize w \<and> m_totalSize w' = m_totalSize w
             \<and> m_tempDirToCleanup w' = m_tempDirToCleanup w
             \<and> m_deletingFilePath w' = m_deletingFilePath w
             \<and> disk w' = disk w
             \<and> since w w' = [Emit statusChanged]
             \<and> started (since w w') = [])"
  using assms by (simp add: startCopy_def emit_def since_def Let_def)

text \<open>A second copy requested while the copy of the scenario is in flight.\<close>

theorem startCopy_rejected_while_busy_witness:
  "m_isCopying scenario_world
   \<and> fst (startCopy mem_qt ''/src/c.img'' ''/dst/d.img'' ''/tmp/stage2'' scenario_world) = False
   \<and> m_status (snd (startCopy mem_qt ''/src/c.img'' ''/dst/d.img'' ''/tmp/stage2'' scenario_world))
        = ''Already copying...''
   \<and> m_tempDirToCleanup (snd (startCopy mem_qt ''/src/c.img'' ''/dst/d.img'' ''/tmp/stage2'' scenario_world))
        = ''/tmp/stage1''
   \<and> m_copiedSize (snd (startCopy mem_qt ''/src/c.img'' ''/dst/d.img'' ''/tmp/stage2'' scenario_world))
        = 1024
   \<and> started (since scenario_world
        (snd (startCopy mem_qt ''/src/c.img'' ''/dst/d.img'' ''/tmp/stage2'' scenario_world))) = []"
proof -
  have a: "m_isCopying scenario_world" by code_simp
  have t: "m_tempDirToCleanup scenario_world = ''/tmp/stage1''" by code_simp
  have c: "m_copiedSize scenario_world = 1024" by code_simp
  show ?thesis
    using startCopy_rejected_while_busy
      [OF a, of mem_qt "''/src/c.img''" "''/dst/d.img''" "''/tmp/stage2''"] a t c
    by (simp add: Let_def since_def)
qed

text \<open>
  Claim C3. A call of \<open>startCopy\<close> made while the coordinator is not busy looks at the
  directory of the destination. If it does not exist and \<open>mkpath\<close> fails, the status becomes
  \<open>"Failed to create destination directory."\<close>, \<open>copyFailed\<close> is emitted exactly once
  with that text, the call returns false, no thread is started and the busy flag stays
  false. If the directory exists or \<open>mkpath\<close> succeeds, the call records the temporary
  directory, sets the busy flag, resets both sizes to 0, starts one thread bound to
  \<open>doCopy(source, destination)\<close> and returns true.
\<close>

theorem startCopy_destination_directory:
  assumes "\<not> m_isCopying w"
  shows "(let destDir = fileInfo_dir q destination;
              present = exists_dir q (disk w) destDir;
              made = mkpath q (disk w) destDir;
              failure = ''Failed to create destination directory.'';
              r = startCopy q source destination tempDirToCleanup w;
              w' = snd r
          in (\<not> present \<and> \<not> fst made \<longrightarrow>
                fst r = False
                \<and> w' = w\<lparr>m_status := failure, disk := snd made,
                          trace := trace w @ [Qt (QDir_exists destDir), Qt (QDir_mkpath destDir),
                                              Emit statusChanged, Emit (copyFailed failure)]\<rparr>
                \<and> m_status w' = failure
                \<and> m_isCopying w' = False
                \<and> emitted (since w w') = [statusChanged, copyFailed failure]
                \<and> started (since w w') = [])
             \<and> (present \<or> fst made \<longrightarrow>
                fst r = True
                \<and> w' = w\<lparr>m_isCopying := True, m_status := ''Starting copy...'',
                          m_copiedSize := 0, m_totalSize := 0,
                          m_tempDirToCleanup := tempDirToCleanup,
                          disk := (if present then disk w else snd made),
                          trace := trace w @ [Qt (QDir_exists destDir)]
                            @ (if present then [] else [Qt (QDir_mkpath destDir)])
                            @ [Emit isCopyingChanged, Emit statusChanged, Emit progressChanged,
                               Emit totalSizeChanged, ThreadStart (doCopy source destination)]\<rparr>
                \<and> m_tempDirToCleanup w' = tempDirToCleanup
                \<and> m_isCopying w' = True
                \<and> m_copiedSize w' = 0 \<and> m_totalSize w' = 0
                \<and> started (since w w') = [doCopy source destination]))"
  using assms
  by (cases "mkpath q (disk w) (fileInfo_dir q destination)")
     (auto simp: startCopy_def emit_def thread_start_def called_def since_def Let_def)

text \<open>
  Both branches on the in-memory file system: a destination below a regular file, where
  \<open>mkpath\<close> fails, and the destination of the scenario, whose directory is created.
\<close>

theorem startCopy_destination_directory_witness:
  "\<not> m_isCopying (fresh free_fs)
   \<and> \<not> exists_dir mem_qt free_fs ''/tmp/stage1/a.img/new''
   \<and> \<not> fst (mkpath mem_qt free_fs ''/tmp/stage1/a.img/new'')
   \<and> startCopy mem_qt ''/src/a.img'' ''/tmp/stage1/a.img/new/b.img'' ''/tmp/stage1'' (fresh free_fs)
       = (False, (fresh free_fs)\<lparr>m_status := ''Failed to create destination directory.'',
            trace := [Qt (QDir_exists ''/tmp/stage1/a.img/new''),
                      Qt (QDir_mkpath ''/tmp/stage1/a.img/new''),
                      Emit statusChanged,
                      Emit (copyFailed ''Failed to create destination directory.'')]\<rparr>)
   \<and> \<not> exists_dir mem_qt free_fs ''/dst/new''
   \<and> fst (mkpath mem_qt free_fs ''/dst/new'')
   \<and> fst scenario_start = True
   \<and> m_isCopying (snd scenario_start) = True
   \<and> m_tempDirToCleanup (snd scenario_start) = ''/tmp/stage1''
   \<and> exists_dir mem_qt (disk (snd scenario_start)) ''/dst/new''
   \<and> since (fresh free_fs) (snd scenario_start)
       = [Qt (QDir_exists ''/dst/new''), Qt (QDir_mkpath ''/dst/new''),
          Emit isCopyingChanged, Emit statusChanged, Emit progressChanged,
          Emit totalSizeChanged, ThreadStart (doCopy ''/src/a.img'' ''/dst/new/b.img'')]"
proof -
  have idle: "\<not> m_isCopying (fresh free_fs)" by code_simp
  have d1: "fileInfo_dir mem_qt ''/tmp/stage1/a.img/new/b.img'' = ''/tmp/stage1/a.img/new''"
    and d2: "fileInfo_dir mem_qt ''/dst/new/b.img'' = ''/dst/new''"
    by code_simp+
  have k: "disk (fresh free_fs) = free_fs" "trace (fresh free_fs) = []"
    by (simp_all add: fresh_def)
  have a1: "\<not> exists_dir mem_qt free_fs ''/tmp/stage1/a.img/new''"
    and a2: "mkpath mem_qt free_fs ''/tmp/stage1/a.img/new'' = (False, free_fs)"
    and b1: "\<not> exists_dir mem_qt free_fs ''/dst/new''"
    and b2: "fst (mkpath mem_qt free_fs ''/dst/new'')"
    and b3: "exists_dir mem_qt (snd (mkpath mem_qt free_fs ''/dst/new'')) ''/dst/new''"
    by code_simp+
  note F = startCopy_destination_directory
    [OF idle, of mem_qt "''/tmp/stage1/a.img/new/b.img''" "''/src/a.img''" "''/tmp/stage1''"]
  note S = startCopy_destination_directory
    [OF idle, of mem_qt "''/dst/new/b.img''" "''/src/a.img''" "''/tmp/stage1''"]
  have f: "startCopy mem_qt ''/src/a.img'' ''/tmp/stage1/a.img/new/b.img'' ''/tmp/stage1'' (fresh free_fs)
       = (False, (fresh free_fs)\<lparr>m_status := ''Failed to create destination directory.'',
            trace := [Qt (QDir_exists ''/tmp/stage1/a.img/new''),
                      Qt (QDir_mkpath ''/tmp/stage1/a.img/new''),
                      Emit statusChanged,
                      Emit (copyFailed ''Failed to create destination directory.'')]\<rparr>)"
    using F a1 a2 by (simp add: Let_def d1 k prod_eq_iff fresh_def)
  have s: "fst scenario_start = True \<and> m_isCopying (snd scenario_start) = True
      \<and> m_tempDirToCleanup (snd scenario_start) = ''/tmp/stage1''
      \<and> exists_dir mem_qt (disk (snd scenario_start)) ''/dst/new''
      \<and> since (fresh free_fs) (snd scenario_start)
       = [Qt (QDir_exists ''/dst/new''), Qt (QDir_mkpath ''/dst/new''),
          Emit isCopyingChanged, Emit statusChanged, Emit progressChanged,
          Emit totalSizeChanged, ThreadStart (doCopy ''/src/a.img'' ''/dst/new/b.img'')]"
    using S b1 b2 b3 by (simp add: Let_def d2 k scenario_start_def since_def)
  show ?thesis using idle a1 a2 b1 b2 f s by simp
qed

subsection \<open>cleanupTempDirectory\<close>

text \<open>
  Claim C4. \<open>cleanupTempDirectory(dir)\<close> first asks whether \<open>dir\<close> exists. If it does not,
  it returns at once: the file system is untouched and nothing else is called. Otherwise it
  calls \<open>QFile::remove\<close> on every entry of \<open>entryList(QDir::Files)\<close>, in order and whatever
  each call returns; then \<open>removeRecursively\<close> on every entry of
  \<open>entryList(QDir::Dirs | QDir::NoDotAndDotDot)\<close>, listed after the files are gone, again
  whatever each returns; then \<open>removeRecursively\<close> on \<open>dir\<close> itself; and, only if that
  returns false, one \<open>rmdir\<close> of the directory's file name in its parent (found by
  \<open>cdUp\<close>). In every case the function returns a world whose members are those it was
  given: no failure reaches the caller.
\<close>

theorem cleanupTempDirectory_steps:
  "(\<not> exists_dir q (disk w) tempDir \<longrightarrow>
      cleanupTempDirectory q tempDir w = w\<lparr>trace := trace w @ [Qt (QDir_exists tempDir)]\<rparr>)
   \<and> (exists_dir q (disk w) tempDir \<longrightarrow>
        (let files = entryList_Files q (disk w) tempDir;
             fs1 = after_remove_files q tempDir files (disk w);
             dirs = entryList_Dirs q fs1 tempDir;
             fs2 = after_remove_subdirs q tempDir dirs fs1;
             ok = fst (removeRecursively q fs2 tempDir);
             fs3 = snd (removeRecursively q fs2 tempDir);
             parentDir = cdUp q fs3 tempDir;
             dirName = fileName q tempDir
         in cleanupTempDirectory q tempDir w =
              w\<lparr>disk := (if ok then fs3 else snd (rmdir q fs3 parentDir dirName)),
                trace := trace w
                  @ [Qt (QDir_exists tempDir), Qt (QDir_entryList_Files tempDir)]
                  @ map (\<lambda>file. Qt (QFile_remove (absoluteFilePath q tempDir file))) files
                  @ [Qt (QDir_entryList_Dirs tempDir)]
                  @ map (\<lambda>subDir. Qt (QDir_removeRecursively (absoluteFilePath q tempDir subDir))) dirs
                  @ [Qt (QDir_removeRecursively tempDir)]
                  @ (if ok then [] else [Qt (QDir_cdUp tempDir), Qt (QDir_rmdir parentDir dirName)])\<rparr>))"
proof (cases "exists_dir q (disk w) tempDir")
  case False
  then show ?thesis by (simp add: cleanup_missing)
next
  case True
  then show ?thesis using cleanup_present [OF True] by simp
qed

text \<open>
  The staging directory held open: its file and its subdirectory go, the recursive removal of
  the directory fails, and the fallback \<open>rmdir\<close> is tried once (and fails too). And a
  directory that does not exist: one probe, nothing else.
\<close>

theorem cleanupTempDirectory_steps_witness:
  "exists_dir mem_qt (disk (fresh held_fs)) ''/tmp/stage1''
   \<and> \<not> fst (removeRecursively mem_qt
              ([(''/tmp'', Directory), (''/tmp/stage1'', Directory), (''/dst'', Directory)],
               [''/tmp/stage1'']) ''/tmp/stage1'')
   \<and> cleanupTempDirectory mem_qt ''/tmp/stage1'' (fresh held_fs) =
       (fresh held_fs)
         \<lparr>disk := ([(''/tmp'', Directory), (''/tmp/stage1'', Directory), (''/dst'', Directory)],
                   [''/tmp/stage1'']),
          trace := [Qt (QDir_exists ''/tmp/stage1''), Qt (QDir_entryList_Files ''/tmp/stage1''),
                    Qt (QFile_remove ''/tmp/stage1/a.img''),
                    Qt (QDir_entryList_Dirs ''/tmp/stage1''),
                    Qt (QDir_removeRecursively ''/tmp/stage1/sub''),
                    Qt (QDir_removeRecursively ''/tmp/stage1''),
                    Qt (QDir_cdUp ''/tmp/stage1''), Qt (QDir_rmdir ''/tmp'' ''stage1'')]\<rparr>
   \<and> \<not> exists_dir mem_qt (disk (fresh free_fs)) ''/tmp/nothing''
   \<and> cleanupTempDirectory mem_qt ''/tmp/nothing'' (fresh free_fs) =
       (fresh free_fs)\<lparr>trace := [Qt (QDir_exists ''/tmp/nothing'')]\<rparr>"
proof -
  let ?left = "([(''/tmp'', Directory), (''/tmp/stage1'', Directory), (''/dst'', Directory)],
                [''/tmp/stage1''])"
  have k: "disk (fresh held_fs) = held_fs" "trace (fresh held_fs) = []"
    "disk (fresh free_fs) = free_fs" "trace (fresh free_fs) = []"
    by (simp_all add: fresh_def)
  have e: "exists_dir mem_qt held_fs ''/tmp/stage1''"
    and n: "\<not> exists_dir mem_qt free_fs ''/tmp/nothing''"
    by code_simp+
  have files: "entryList_Files mem_qt held_fs ''/tmp/stage1'' = [''a.img'']" by code_simp
  have fs1: "after_remove_files mem_qt ''/tmp/stage1'' [''a.img''] held_fs =
      ([(''/tmp'', Directory), (''/tmp/stage1'', Directory), (''/tmp/stage1/sub'', Directory),
        (''/tmp/stage1/sub/b.bin'', RegularFile), (''/dst'', Directory)], [''/tmp/stage1''])"
    (is "_ = ?fs1")
    by code_simp
  have dirs: "entryList_Dirs mem_qt ?fs1 ''/tmp/stage1'' = [''sub'']" by code_simp
  have fs2: "after_remove_subdirs mem_qt ''/tmp/stage1'' [''sub''] ?fs1 = ?left" by code_simp
  have rr: "removeRecursively mem_qt ?left ''/tmp/stage1'' = (False, ?left)" by code_simp
  have up: "cdUp mem_qt ?left ''/tmp/stage1'' = ''/tmp''"
    and nm: "fileName mem_qt ''/tmp/stage1'' = ''stage1''"
    and rd: "rmdir mem_qt ?left ''/tmp'' ''stage1'' = (False, ?left)"
    and ab: "absoluteFilePath mem_qt ''/tmp/stage1'' ''a.img'' = ''/tmp/stage1/a.img''"
       "absoluteFilePath mem_qt ''/tmp/stage1'' ''sub'' = ''/tmp/stage1/sub''"
    by code_simp+
  have A: "cleanupTempDirectory mem_qt ''/tmp/stage1'' (fresh held_fs) =
       (fresh held_fs)
         \<lparr>disk := ?left,
          trace := [Qt (QDir_exists ''/tmp/stage1''), Qt (QDir_entryList_Files ''/tmp/stage1''),
                    Qt (QFile_remove ''/tmp/stage1/a.img''),
                    Qt (QDir_entryList_Dirs ''/tmp/stage1''),
                    Qt (QDir_removeRecursively ''/tmp/stage1/sub''),
                    Qt (QDir_removeRecursively ''/tmp/stage1''),
                    Qt (QDir_cdUp ''/tmp/stage1''), Qt (QDir_rmdir ''/tmp'' ''stage1'')]\<rparr>"
    using cleanupTempDirectory_steps [of mem_qt "fresh held_fs" "''/tmp/stage1''"] e
    by (simp add: k Let_def files fs1 dirs fs2 rr up nm rd ab)
  have B: "cleanupTempDirectory mem_qt ''/tmp/nothing'' (fresh free_fs) =
       (fresh free_fs)\<lparr>trace := [Qt (QDir_exists ''/tmp/nothing'')]\<rparr>"
    using cleanupTempDirectory_steps [of mem_qt "fresh free_fs" "''/tmp/nothing''"] n
    by (simp add: k)
  show ?thesis using e n rr A B by (simp add: k)
qed

subsection \<open>progressPercent\<close>

lemma percent_bounds:
  fixes c t :: int
  assumes "0 < t" "0 \<le> c" "c \<le> t"
  shows "0 \<le> c * 100 div t" "c * 100 div t \<le> 100"
proof -
  show "0 \<le> c * 100 div t" using assms by (simp add: pos_imp_zdiv_nonneg_iff)
  have "c * 100 \<le> 100 * t" using assms by simp
  then have "c * 100 div t \<le> 100 * t div t" by (rule zdiv_mono1) (use assms in simp)
  then show "c * 100 div t \<le> 100" using assms by simp
qed

lemma sdiv_nonneg: "0 \<le> (k::int) \<Longrightarrow> 0 < l \<Longrightarrow> k sdiv l = k div l"
  by (cases "k = 0") (simp_all add: signed_divide_int_def)

lemma progressPercent_exact:
  assumes t: "0 < sint (m_totalSize w)"
    and c0: "0 \<le> sint (m_copiedSize w)"
    and ct: "sint (m_copiedSize w) \<le> sint (m_totalSize w)"
    and fit: "sint (m_copiedSize w) * 100 < 2 ^ 63"
  shows "sint (progressPercent w) = sint (m_copiedSize w) * 100 div sint (m_totalSize w)"
proof -
  let ?c = "sint (m_copiedSize w)" and ?t = "sint (m_totalSize w)"
  have prod: "sint (m_copiedSize w * 100) = ?c * 100"
  proof -
    have "sint (m_copiedSize w * 100) = signed_take_bit 63 (?c * sint (100 :: qint64))"
      by (simp add: sint_word_ariths)
    also have "\<dots> = signed_take_bit 63 (?c * 100)" by simp
    also have "\<dots> = ?c * 100"
      using c0 fit by (intro signed_take_bit_int_eq_self) simp_all
    finally show ?thesis .
  qed
  have b: "0 \<le> ?c * 100 div ?t" "?c * 100 div ?t \<le> 100"
    using percent_bounds [OF t c0 ct] by simp_all
  have quot: "sint (qint64_div (m_copiedSize w * 100) (m_totalSize w)) = ?c * 100 div ?t"
  proof -
    have "sint (m_copiedSize w * 100) sdiv ?t = ?c * 100 div ?t"
      using c0 t by (simp add: prod sdiv_nonneg)
    moreover have "sint (word_of_int (?c * 100 div ?t) :: qint64) = ?c * 100 div ?t"
    proof -
      have "signed_take_bit 63 (?c * 100 div ?t) = ?c * 100 div ?t"
        using b by (intro signed_take_bit_int_eq_self) simp_all
      then show ?thesis by (simp add: sint_sbintrunc')
    qed
    ultimately show ?thesis by (simp add: qint64_div_def)
  qed
  have "sint (static_cast_int (qint64_div (m_copiedSize w * 100) (m_totalSize w)))
          = signed_take_bit 31 (?c * 100 div ?t)"
    by (simp add: static_cast_int_def scast_eq sint_sbintrunc' quot)
  also have "\<dots> = ?c * 100 div ?t"
    using b by (intro signed_take_bit_int_eq_self) simp_all
  finally show ?thesis using t by (simp add: progressPercent_def)
qed

lemma progressPercent_no_total: "sint (m_totalSize w) \<le> 0 \<Longrightarrow> progressPercent w = 0"
  by (simp add: progressPercent_def)

lemma onCopyProgress_stores:
  "m_copiedSize (onCopyProgress copiedSize totalSize w) = copiedSize"
  "m_totalSize (onCopyProgress copiedSize totalSize w) = totalSize"
  by (simp_all add: onCopyProgress_def emit_def Let_def)

text \<open>
  Claim C5 says that \<open>progressPercent()\<close> is in \<open>[0, 100]\<close> for any pair of sizes the
  progress handler may have stored. The handler stores the pair it is given, unchecked, and
  \<open>progressPercent\<close> does not clamp: after the progress event \<open>(200, 100)\<close> during the copy
  of the scenario it returns 200. And with both sizes at \<open>10^17\<close> bytes the \<open>qint64\<close> product
  wraps around and the result is negative.
\<close>

theorem progressPercent_out_of_range:
  "m_copiedSize (onCopyProgress 200 100 (snd scenario_start)) = 200
   \<and> m_totalSize (onCopyProgress 200 100 (snd scenario_start)) = 100
   \<and> sint (progressPercent (onCopyProgress 200 100 (snd scenario_start))) = 200
   \<and> \<not> sint (progressPercent (onCopyProgress 200 100 (snd scenario_start))) \<le> 100
   \<and> \<not> 0 \<le> sint (progressPercent
               (onCopyProgress 100000000000000000 100000000000000000 (snd scenario_start)))"
  by (simp add: progressPercent_def onCopyProgress_stores qint64_div_def static_cast_int_def)

text \<open>
  Claim C5, amended. \<open>progressPercent()\<close> returns 0 whenever the total is at most 0, and a
  value in \<open>[0, 100]\<close> whenever \<open>0 \<le> copied \<le> total\<close> and \<open>copied * 100\<close> does not overflow
  \<open>qint64\<close>. The progress handler stores whatever pair it receives.
\<close>

theorem progressPercent_range:
  "(sint (m_totalSize w) \<le> 0 \<longrightarrow> progressPercent w = 0)
   \<and> (0 \<le> sint (m_copiedSize w) \<and> sint (m_copiedSize w) \<le> sint (m_totalSize w)
        \<and> sint (m_copiedSize w) * 100 < 2 ^ 63 \<longrightarrow>
      0 \<le> sint (progressPercent w) \<and> sint (progressPercent w) \<le> 100)
   \<and> m_copiedSize (onCopyProgress copiedSize totalSize w) = copiedSize
   \<and> m_totalSize (onCopyProgress copiedSize totalSize w) = totalSize"
proof -
  have "0 \<le> sint (progressPercent w) \<and> sint (progressPercent w) \<le> 100"
    if c0: "0 \<le> sint (m_copiedSize w)" and ct: "sint (m_copiedSize w) \<le> sint (m_totalSize w)"
      and fit: "sint (m_copiedSize w) * 100 < 2 ^ 63"
  proof (cases "0 < sint (m_totalSize w)")
    case True
    show ?thesis
      using progressPercent_exact [OF True c0 ct fit] percent_bounds [OF True c0 ct] by simp
  next
    case False
    then show ?thesis by (simp add: progressPercent_no_total)
  qed
  then show ?thesis by (simp add: progressPercent_no_total onCopyProgress_stores)
qed

text \<open>The copy of the scenario just after it started (total 0), and after the event \<open>(512, 1024)\<close>.\<close>

theorem progressPercent_range_witness:
  "sint (m_totalSize (snd scenario_start)) \<le> 0
   \<and> progressPercent (snd scenario_start) = 0
   \<and> 0 \<le> sint (m_copiedSize (onCopyProgress 512 1024 (snd scenario_start)))
   \<and> sint (m_copiedSize (onCopyProgress 512 1024 (snd scenario_start)))
        \<le> sint (m_totalSize (onCopyProgress 512 1024 (snd scenario_start)))
   \<and> sint (m_copiedSize (onCopyProgress 512 1024 (snd scenario_start))) * 100 < 2 ^ 63
   \<and> 0 \<le> sint (progressPercent (onCopyProgress 512 1024 (snd scenario_start)))
   \<and> sint (progressPercent (onCopyProgress 512 1024 (snd scenario_start))) \<le> 100"
proof -
  have z: "m_totalSize (snd scenario_start) = 0" by code_simp
  note A = progressPercent_range [of "snd scenario_start" 0 0]
  note B = progressPercent_range [of "onCopyProgress 512 1024 (snd scenario_start)" 0 0]
  have s: "m_copiedSize (onCopyProgress 512 1024 (snd scenario_start)) = 512"
    "m_totalSize (onCopyProgress 512 1024 (snd scenario_start)) = 1024"
    by (simp_all add: onCopyProgress_stores)
  show ?thesis using A B by (simp add: z s)
qed

text \<open>
  Claim C6 says that \<open>progressPercent()\<close> returns \<open>floor(copied * 100 / total)\<close> for all
  \<open>0 \<le> copied \<le> total\<close> with \<open>total > 0\<close>. The product is a \<open>qint64\<close>: with both sizes at
  \<open>10^17\<close> bytes it wraps around and the function returns \<open>-84\<close>, where the quotient is 100.
\<close>

theorem progressPercent_overflow:
  "0 \<le> sint (m_copiedSize (onCopyProgress 100000000000000000 100000000000000000 (snd scenario_start)))
   \<and> sint (m_copiedSize (onCopyProgress 100000000000000000 100000000000000000 (snd scenario_start)))
       \<le> sint (m_totalSize (onCopyProgress 100000000000000000 100000000000000000 (snd scenario_start)))
   \<and> 0 < sint (m_totalSize (onCopyProgress 100000000000000000 100000000000000000 (snd scenario_start)))
   \<and> sint (m_copiedSize (onCopyProgress 100000000000000000 100000000000000000 (snd scenario_start))) * 100
        div sint (m_totalSize (onCopyProgress 100000000000000000 100000000000000000 (snd scenario_start)))
       = 100
   \<and> sint (progressPercent (onCopyProgress 100000000000000000 100000000000000000 (snd scenario_start)))
       = - 84"
  by (simp add: progressPercent_def onCopyProgress_stores qint64_div_def static_cast_int_def)

text \<open>
  Claim C6, amended. \<open>progressPercent()\<close> returns 0 whenever the total is at most 0. For
  \<open>0 \<le> copied \<le> total\<close> with \<open>total > 0\<close> and \<open>copied * 100 < 2^63\<close> it returns
  \<open>floor(copied * 100 / total)\<close>, and over that range it does not decrease when \<open>copied\<close>
  grows and the total stays the same.
\<close>

theorem progressPercent_floor_monotone:
  "(sint (m_totalSize w) \<le> 0 \<longrightarrow> progressPercent w = 0)
   \<and> (0 < sint (m_totalSize w) \<and> 0 \<le> sint (m_copiedSize w)
        \<and> sint (m_copiedSize w) \<le> sint (m_totalSize w)
        \<and> sint (m_copiedSize w) * 100 < 2 ^ 63 \<longrightarrow>
      sint (progressPercent w) = sint (m_copiedSize w) * 100 div sint (m_totalSize w))
   \<and> (m_totalSize v = m_totalSize w \<and> 0 < sint (m_totalSize w)
        \<and> 0 \<le> sint (m_copiedSize w) \<and> sint (m_copiedSize w) \<le> sint (m_copiedSize v)
        \<and> sint (m_copiedSize v) \<le> sint (m_totalSize w)
        \<and> sint (m_copiedSize v) * 100 < 2 ^ 63 \<longrightarrow>
      sint (progressPercent w) \<le> sint (progressPercent v))"
proof -
  have mono: "sint (progressPercent w) \<le> sint (progressPercent v)"
    if tv: "m_totalSize v = m_totalSize w" and t: "0 < sint (m_totalSize w)"
      and c0: "0 \<le> sint (m_copiedSize w)" and cv: "sint (m_copiedSize w) \<le> sint (m_copiedSize v)"
      and vt: "sint (m_copiedSize v) \<le> sint (m_totalSize w)"
      and fit: "sint (m_copiedSize v) * 100 < 2 ^ 63"
  proof -
    have pw: "sint (progressPercent w) = sint (m_copiedSize w) * 100 div sint (m_totalSize w)"
      using t c0 cv vt fit by (intro progressPercent_exact) simp_all
    have pv: "sint (progressPercent v) = sint (m_copiedSize v) * 100 div sint (m_totalSize w)"
      using progressPercent_exact [of v] t c0 cv vt fit by (simp add: tv)
    have "sint (m_copiedSize w) * 100 div sint (m_totalSize w)
            \<le> sint (m_copiedSize v) * 100 div sint (m_totalSize w)"
      using cv t by (intro zdiv_mono1) simp_all
    then show ?thesis by (simp add: pw pv)
  qed
  show ?thesis
    using mono by (simp add: progressPercent_no_total progressPercent_exact)
qed

text \<open>The progress events of the scenario: 0, then 50, then 100 percent.\<close>

theorem progressPercent_floor_monotone_witness:
  "sint (m_totalSize (snd scenario_start)) \<le> 0
   \<and> progressPercent (snd scenario_start) = 0
   \<and> sint (progressPercent (onCopyProgress 512 1024 (snd scenario_start))) = 50
   \<and> sint (progressPercent (onCopyProgress 1024 1024 (snd scenario_start))) = 100
   \<and> sint (progressPercent (onCopyProgress 512 1024 (snd scenario_start)))
        \<le> sint (progressPercent (onCopyProgress 1024 1024 (snd scenario_start)))"
proof -
  have z: "m_totalSize (snd scenario_start) = 0" by code_simp
  note A = progressPercent_floor_monotone [of "snd scenario_start" "snd scenario_start"]
  note B = progressPercent_floor_monotone
    [of "onCopyProgress 512 1024 (snd scenario_start)"
        "onCopyProgress 1024 1024 (snd scenario_start)"]
  note C = progressPercent_floor_monotone
    [of "onCopyProgress 1024 1024 (snd scenario_start)"
        "onCopyProgress 1024 1024 (snd scenario_start)"]
  have "progressPercent (snd scenario_start) = 0" using A by (simp add: z)
  moreover have "sint (progressPercent (onCopyProgress 512 1024 (snd scenario_start))) = 50"
    using B by (simp add: onCopyProgress_stores)
  moreover have "sint (progressPercent (onCopyProgress 1024 1024 (snd scenario_start))) = 100"
    using C by (simp add: onCopyProgress_stores)
  moreover have "sint (progressPercent (onCopyProgress 512 1024 (snd scenario_start)))
        \<le> sint (progressPercent (onCopyProgress 1024 1024 (snd scenario_start)))"
    using B by (simp add: onCopyProgress_stores)
  ultimately show ?thesis by (simp add: z)
qed

subsection \<open>startImageValidation\<close>

text \<open>
  Claim C7. Every call of \<open>startImageValidation\<close> returns true and starts one thread bound to
  \<open>doValidateImage(imagePath)\<close>, whether the busy flag is set or not (it is neither read nor
  changed). Before the thread is started the call emits \<open>statusChanged\<close> and then
  \<open>validationProgress\<close> with the label ``start validating'' and the value 0.
\<close>

theorem startImageValidation_always_dispatches:
  "startImageValidation imagePath w =
     (True, w\<lparr>m_status := ''Starting image validation...'',
              trace := trace w @ [Emit statusChanged,
                                  Emit (validationProgress label_start_validation 0),
                                  ThreadStart (doValidateImage imagePath)]\<rparr>)
   \<and> fst (startImageValidation imagePath (w\<lparr>m_isCopying := True\<rparr>)) = True
   \<and> started (since (w\<lparr>m_isCopying := True\<rparr>)
        (snd (startImageValidation imagePath (w\<lparr>m_isCopying := True\<rparr>))))
       = [doValidateImage imagePath]
   \<and> since w (snd (startImageValidation imagePath w)) =
       [Emit statusChanged, Emit (validationProgress label_start_validation 0),
        ThreadStart (doValidateImage imagePath)]
   \<and> m_isCopying (snd (startImageValidation imagePath w)) = m_isCopying w"
  by (simp add: startImageValidation_def emit_def thread_start_def since_def Let_def)

subsection \<open>startDelete and onDeleteFinished\<close>

text \<open>
  Claim C8. Every call of \<open>startDelete\<close> returns true and starts one thread bound to
  \<open>doDelete(filePath)\<close>, whatever the busy flag is. Neither \<open>startDelete\<close> nor
  \<open>onDeleteFinished\<close> reads or changes the busy flag, the copied size, the total size or
  the recorded temporary directory: run from a world that differs in those four members, each
  gives the same result with the same four members, and any sequence of the two leaves the
  four as they were. On success \<open>deleteSucceeded\<close> carries the recorded delete path, which
  after \<open>startDelete(filePath)\<close> is \<open>filePath\<close>; on failure \<open>deleteFailed\<close> carries the
  worker's message.
\<close>

theorem delete_frame:
  "startDelete filePath w =
     (True, w\<lparr>m_deletingFilePath := filePath, m_status := ''Starting delete...'',
              trace := trace w @ [Emit statusChanged, ThreadStart (doDelete filePath)]\<rparr>)
   \<and> onDeleteFinished success message w =
       w\<lparr>m_status := message,
         trace := trace w @ [Emit statusChanged,
                             Emit (if success then deleteSucceeded (m_deletingFilePath w)
                                   else deleteFailed message)]\<rparr>
   \<and> startDelete filePath
        (w\<lparr>m_isCopying := b, m_copiedSize := c, m_totalSize := t, m_tempDirToCleanup := d\<rparr>) =
       (True, (snd (startDelete filePath w))
                \<lparr>m_isCopying := b, m_copiedSize := c, m_totalSize := t, m_tempDirToCleanup := d\<rparr>)
   \<and> onDeleteFinished success message
        (w\<lparr>m_isCopying := b, m_copiedSize := c, m_totalSize := t, m_tempDirToCleanup := d\<rparr>) =
       (onDeleteFinished success message w)
         \<lparr>m_isCopying := b, m_copiedSize := c, m_totalSize := t, m_tempDirToCleanup := d\<rparr>
   \<and> emitted (since (snd (startDelete filePath w))
        (onDeleteFinished True message (snd (startDelete filePath w))))
       = [statusChanged, deleteSucceeded filePath]
   \<and> emitted (since w (onDeleteFinished False message w)) = [statusChanged, deleteFailed message]
   \<and> ((\<forall>c \<in> set cs. is_delete_call c) \<longrightarrow>
        m_isCopying (run q cs w) = m_isCopying w \<and> m_copiedSize (run q cs w) = m_copiedSize w
        \<and> m_totalSize (run q cs w) = m_totalSize w
        \<and> m_tempDirToCleanup (run q cs w) = m_tempDirToCleanup w)"
proof -
  have closed: "startDelete filePath w =
     (True, w\<lparr>m_deletingFilePath := filePath, m_status := ''Starting delete...'',
              trace := trace w @ [Emit statusChanged, ThreadStart (doDelete filePath)]\<rparr>)"
    "onDeleteFinished success message w =
       w\<lparr>m_status := message,
         trace := trace w @ [Emit statusChanged,
                             Emit (if success then deleteSucceeded (m_deletingFilePath w)
                                   else deleteFailed message)]\<rparr>"
    by (simp_all add: startDelete_def onDeleteFinished_def emit_def thread_start_def Let_def)
  have unread: "startDelete filePath
        (w\<lparr>m_isCopying := b, m_copiedSize := c, m_totalSize := t, m_tempDirToCleanup := d\<rparr>) =
       (True, (snd (startDelete filePath w))
                \<lparr>m_isCopying := b, m_copiedSize := c, m_totalSize := t, m_tempDirToCleanup := d\<rparr>)"
    "onDeleteFinished success message
        (w\<lparr>m_isCopying := b, m_copiedSize := c, m_totalSize := t, m_tempDirToCleanup := d\<rparr>) =
       (onDeleteFinished success message w)
         \<lparr>m_isCopying := b, m_copiedSize := c, m_totalSize := t, m_tempDirToCleanup := d\<rparr>"
    by (simp_all add: startDelete_def onDeleteFinished_def emit_def thread_start_def Let_def)
  have carried: "emitted (since (snd (startDelete filePath w))
        (onDeleteFinished True message (snd (startDelete filePath w))))
       = [statusChanged, deleteSucceeded filePath]"
    "emitted (since w (onDeleteFinished False message w)) = [statusChanged, deleteFailed message]"
    by (simp_all add: startDelete_def onDeleteFinished_def emit_def thread_start_def since_def
          Let_def)
  have frame: "m_isCopying (run q cs w) = m_isCopying w \<and> m_copiedSize (run q cs w) = m_copiedSize w
        \<and> m_totalSize (run q cs w) = m_totalSize w
        \<and> m_tempDirToCleanup (run q cs w) = m_tempDirToCleanup w"
    if "\<forall>c \<in> set cs. is_delete_call c"
    using run_delete_frame [OF that, of q w] by simp
  show ?thesis
    using closed unread carried frame by blast
qed

text \<open>
  The failing delete of the specification's scenario, started and finished while the copy of
  the scenario is in flight: the copy's members are as before.
\<close>

theorem delete_frame_witness:
  "list_all is_delete_call [StartDelete ''/tmp/stale.img'', OnDeleteFinished False ''permission denied'']
   \<and> m_isCopying (run mem_qt [StartDelete ''/tmp/stale.img'',
                               OnDeleteFinished False ''permission denied''] scenario_world) = True
   \<and> m_copiedSize (run mem_qt [StartDelete ''/tmp/stale.img'',
                                OnDeleteFinished False ''permission denied''] scenario_world) = 1024
   \<and> m_tempDirToCleanup (run mem_qt [StartDelete ''/tmp/stale.img'',
        OnDeleteFinished False ''permission denied''] scenario_world) = ''/tmp/stage1''
   \<and> emitted (since scenario_world (run mem_qt [StartDelete ''/tmp/stale.img'',
        OnDeleteFinished False ''permission denied''] scenario_world))
       = [statusChanged, statusChanged, deleteFailed ''permission denied'']"
proof -
  let ?cs = "[StartDelete ''/tmp/stale.img'', OnDeleteFinished False ''permission denied'']"
  have a: "\<forall>c \<in> set ?cs. is_delete_call c" by simp
  have s: "m_isCopying scenario_world = True" "m_copiedSize scenario_world = 1024"
    "m_tempDirToCleanup scenario_world = ''/tmp/stage1''"
    by code_simp+
  note T = delete_frame [where filePath = "''/tmp/stale.img''" and w = scenario_world
      and success = False and message = "''permission denied''" and cs = ?cs and q = mem_qt
      and b = True and c = 0 and t = 0 and d = "[]"]
  have e: "emitted (since scenario_world (run mem_qt ?cs scenario_world))
       = [statusChanged, statusChanged, deleteFailed ''permission denied'']"
    by code_simp
  have f: "m_isCopying (run mem_qt ?cs scenario_world) = m_isCopying scenario_world
      \<and> m_copiedSize (run mem_qt ?cs scenario_world) = m_copiedSize scenario_world
      \<and> m_totalSize (run mem_qt ?cs scenario_world) = m_totalSize scenario_world
      \<and> m_tempDirToCleanup (run mem_qt ?cs scenario_world) = m_tempDirToCleanup scenario_world"
    using T a by blast
  show ?thesis using f s e by simp
qed

text \<open>
  Claim C10. The delete path is one member, overwritten by every \<open>startDelete\<close>. When
  \<open>startDelete(p2)\<close> follows \<open>startDelete(p1)\<close> before the first terminal result is
  consumed, both successful terminal results emit \<open>deleteSucceeded(p2)\<close>, and if the two
  paths differ \<open>deleteSucceeded(p1)\<close> is never emitted. Whatever calls other than
  \<open>startDelete\<close> come in between, a successful terminal result reports the path of the
  latest \<open>startDelete\<close>.
\<close>

theorem overlapping_deletes_report_latest:
  "(let w1 = snd (startDelete p1 w);
        w2 = snd (startDelete p2 w1);
        w3 = onDeleteFinished True message1 w2;
        w4 = onDeleteFinished True message2 w3
    in started (since w w2) = [doDelete p1, doDelete p2]
       \<and> m_deletingFilePath w1 = p1 \<and> m_deletingFilePath w2 = p2
       \<and> emitted (since w2 w3) = [statusChanged, deleteSucceeded p2]
       \<and> emitted (since w3 w4) = [statusChanged, deleteSucceeded p2]
       \<and> (p1 \<noteq> p2 \<longrightarrow> deleteSucceeded p1 \<notin> set (emitted (since w w4))))
   \<and> ((\<forall>c \<in> set cs1. \<not> is_StartDelete c) \<and> (\<forall>c \<in> set cs2. \<not> is_StartDelete c) \<longrightarrow>
       (let v1 = run q cs1 (snd (startDelete p1 w));
            v2 = run q cs2 (snd (startDelete p2 v1))
        in m_deletingFilePath v1 = p1 \<and> m_deletingFilePath v2 = p2
           \<and> emitted (since v2 (onDeleteFinished True message1 v2))
               = [statusChanged, deleteSucceeded p2]))"
proof -
  have direct: "(let w1 = snd (startDelete p1 w);
        w2 = snd (startDelete p2 w1);
        w3 = onDeleteFinished True message1 w2;
        w4 = onDeleteFinished True message2 w3
    in started (since w w2) = [doDelete p1, doDelete p2]
       \<and> m_deletingFilePath w1 = p1 \<and> m_deletingFilePath w2 = p2
       \<and> emitted (since w2 w3) = [statusChanged, deleteSucceeded p2]
       \<and> emitted (since w3 w4) = [statusChanged, deleteSucceeded p2]
       \<and> (p1 \<noteq> p2 \<longrightarrow> deleteSucceeded p1 \<notin> set (emitted (since w w4))))"
    by (simp add: startDelete_def onDeleteFinished_def emit_def thread_start_def since_def Let_def)
  have path: "m_deletingFilePath (run q cs (snd (startDelete p v))) = p"
    if "\<forall>c \<in> set cs. \<not> is_StartDelete c" for cs p v
    using run_keeps_delete_path [OF that, of q "snd (startDelete p v)"]
    by (simp add: startDelete_def emit_def thread_start_def Let_def)
  have reported: "emitted (since v (onDeleteFinished True message1 v))
      = [statusChanged, deleteSucceeded (m_deletingFilePath v)]" for v
    by (simp add: onDeleteFinished_def emit_def since_def Let_def)
  have "(let v1 = run q cs1 (snd (startDelete p1 w));
            v2 = run q cs2 (snd (startDelete p2 v1))
        in m_deletingFilePath v1 = p1 \<and> m_deletingFilePath v2 = p2
           \<and> emitted (since v2 (onDeleteFinished True message1 v2))
               = [statusChanged, deleteSucceeded p2])"
    if "\<forall>c \<in> set cs1. \<not> is_StartDelete c" and "\<forall>c \<in> set cs2. \<not> is_StartDelete c"
    using path [OF that(1)] path [OF that(2)] by (simp add: Let_def reported)
  with direct show ?thesis by blast
qed

text \<open>
  Two deletes started back to back on a fresh coordinator, both succeeding; and two deletes
  started during the copy of the scenario with other calls in between.
\<close>

theorem overlapping_deletes_report_latest_witness:
  "''/tmp/first.img'' \<noteq> ''/tmp/second.img''
   \<and> list_all (\<lambda>c. \<not> is_StartDelete c) [OnCopyProgress 512 1024]
   \<and> list_all (\<lambda>c. \<not> is_StartDelete c) [OnDeleteFinished False ''busy'', OnCopyProgress 1024 1024]
   \<and> emitted (since (fresh free_fs)
        (run mem_qt [StartDelete ''/tmp/first.img'', StartDelete ''/tmp/second.img'',
                     OnDeleteFinished True ''first deleted'',
                     OnDeleteFinished True ''second deleted''] (fresh free_fs)))
       = [statusChanged, statusChanged, statusChanged, deleteSucceeded ''/tmp/second.img'',
          statusChanged, deleteSucceeded ''/tmp/second.img'']
   \<and> deleteSucceeded ''/tmp/first.img'' \<notin> set (emitted (since (fresh free_fs)
        (run mem_qt [StartDelete ''/tmp/first.img'', StartDelete ''/tmp/second.img'',
                     OnDeleteFinished True ''first deleted'',
                     OnDeleteFinished True ''second deleted''] (fresh free_fs))))
   \<and> m_deletingFilePath
        (run mem_qt [StartDelete ''/tmp/first.img'', OnCopyProgress 512 1024,
                     StartDelete ''/tmp/second.img'', OnDeleteFinished False ''busy'',
                     OnCopyProgress 1024 1024] scenario_world) = ''/tmp/second.img''"
proof -
  have ne: "''/tmp/first.img'' \<noteq> ''/tmp/second.img''" by simp
  have a: "\<forall>c \<in> set [OnCopyProgress 512 1024]. \<not> is_StartDelete c"
    and b: "\<forall>c \<in> set [OnDeleteFinished False ''busy'', OnCopyProgress 1024 1024]. \<not> is_StartDelete c"
    by simp_all
  have e: "emitted (since (fresh free_fs)
        (run mem_qt [StartDelete ''/tmp/first.img'', StartDelete ''/tmp/second.img'',
                     OnDeleteFinished True ''first deleted'',
                     OnDeleteFinished True ''second deleted''] (fresh free_fs)))
       = [statusChanged, statusChanged, statusChanged, deleteSucceeded ''/tmp/second.img'',
          statusChanged, deleteSucceeded ''/tmp/second.img'']"
    by code_simp
  note A = overlapping_deletes_report_latest
      [where ?p1.0 = "''/tmp/first.img''" and w = "fresh free_fs"
         and ?p2.0 = "''/tmp/second.img''" and ?message1.0 = "''first deleted''"
         and ?message2.0 = "''second deleted''" and ?cs1.0 = "[]" and ?cs2.0 = "[]"
         and q = mem_qt]
  note B = overlapping_deletes_report_latest
      [where ?p1.0 = "''/tmp/first.img''" and w = scenario_world
         and ?p2.0 = "''/tmp/second.img''" and ?message1.0 = "''first deleted''"
         and ?message2.0 = "''second deleted''" and ?cs1.0 = "[OnCopyProgress 512 1024]"
         and ?cs2.0 = "[OnDeleteFinished False ''busy'', OnCopyProgress 1024 1024]"
         and q = mem_qt]
  have p: "m_deletingFilePath
        (run mem_qt [StartDelete ''/tmp/first.img'', OnCopyProgress 512 1024,
                     StartDelete ''/tmp/second.img'', OnDeleteFinished False ''busy'',
                     OnCopyProgress 1024 1024] scenario_world) = ''/tmp/second.img''"
    using B a b by (simp add: Let_def)
  have n: "deleteSucceeded ''/tmp/first.img'' \<notin> set (emitted (since (fresh free_fs)
        (run mem_qt [StartDelete ''/tmp/first.img'', StartDelete ''/tmp/second.img'',
                     OnDeleteFinished True ''first deleted'',
                     OnDeleteFinished True ''second deleted''] (fresh free_fs))))"
    using A ne by (simp add: Let_def)
  show ?thesis using ne e p n by simp
qed

subsection \<open>getAvailableSpace\<close>

lemma getAvailableSpace_root:
  "getAvailableSpace q fs path =
     (if storage_isValid q fs (queried_root q fs path) \<and> storage_isReady q fs (queried_root q fs path)
      then storage_bytesAvailable q fs (queried_root q fs path) else 0)"
  by (simp add: getAvailableSpace_def queried_root_def Let_def)

text \<open>
  Claim C9. \<open>getAvailableSpace(path)\<close> is never negative, for every path, the empty one
  included. It returns the bytes available on the root it resolved, or 0 when the
  \<open>QStorageInfo\<close> of that root is not valid or not ready. On a drive-letter system a path
  whose second character is a colon resolves to its first two characters and a slash;
  elsewhere the root is the mount root of the path (of the system root for the empty path),
  or the system root when that is empty. The one thing taken from Qt is its documented
  contract that a valid and ready \<open>QStorageInfo\<close> reports a size that is not negative
  (\<open>-1\<close> stands for an invalid one).
\<close>

theorem getAvailableSpace_never_negative:
  assumes "\<forall>root. storage_isValid q fs root \<and> storage_isReady q fs root \<longrightarrow>
             0 \<le> sint (storage_bytesAvailable q fs root)"
  shows "0 \<le> sint (getAvailableSpace q fs path)
     \<and> (let root = queried_root q fs path
        in getAvailableSpace q fs path =
             (if storage_isValid q fs root \<and> storage_isReady q fs root
              then storage_bytesAvailable q fs root else 0))
     \<and> (Q_OS_WIN q \<and> 2 \<le> length (fromNativeSeparators q path)
          \<and> fromNativeSeparators q path ! 1 = CHR '':'' \<longrightarrow>
        queried_root q fs path = take 2 (fromNativeSeparators q path) @ ''/'')
     \<and> (\<not> Q_OS_WIN q \<longrightarrow>
        queried_root q fs path =
          (if storage_rootPath q fs (if path = [] then QDir_rootPath q else path) = []
           then QDir_rootPath q
           else storage_rootPath q fs (if path = [] then QDir_rootPath q else path)))"
proof -
  have "0 \<le> sint (getAvailableSpace q fs path)"
    using assms by (simp add: getAvailableSpace_root)
  then show ?thesis
    by (simp add: getAvailableSpace_root queried_root_def Let_def)
qed

text \<open>
  One volume, seen through each branch of the \<open>#ifdef\<close>. The relative path and the drive
  \<open>D:\<close> are the cases where an unguarded query would have reported \<open>-1\<close>.
\<close>

theorem getAvailableSpace_never_negative_witness:
  "storage_isValid unix_info () ''/'' \<and> storage_isReady unix_info () ''/''
   \<and> sint (storage_bytesAvailable unix_info () ''/'') = 4096
   \<and> sint (getAvailableSpace unix_info () ''/data/a.img'') = 4096
   \<and> sint (getAvailableSpace unix_info () '''') = 4096
   \<and> sint (getAvailableSpace unix_info () ''relative'') = 4096
   \<and> sint (storage_bytesAvailable unix_info () ''relative'') = - 1
   \<and> queried_root win_info () ''C:/images/a.img'' = ''C:/''
   \<and> sint (getAvailableSpace win_info () ''C:/images/a.img'') = 4096
   \<and> queried_root win_info () ''D:/a.img'' = ''D:/''
   \<and> sint (getAvailableSpace win_info () ''D:/a.img'') = 0
   \<and> sint (storage_bytesAvailable win_info () ''D:/'') = - 1"
proof -
  have u: "\<forall>root. storage_isValid unix_info () root \<and> storage_isReady unix_info () root \<longrightarrow>
             0 \<le> sint (storage_bytesAvailable unix_info () root)"
    by (simp add: unix_info_def)
  have w: "\<forall>root. storage_isValid win_info () root \<and> storage_isReady win_info () root \<longrightarrow>
             0 \<le> sint (storage_bytesAvailable win_info () root)"
    by (simp add: win_info_def)
  note U = getAvailableSpace_never_negative [OF u]
  note W = getAvailableSpace_never_negative [OF w]
  have l: "storage_isValid unix_info () ''/'' \<and> storage_isReady unix_info () ''/''
      \<and> sint (storage_bytesAvailable unix_info () ''/'') = 4096"
    by (simp add: unix_info_def)
  have r1: "queried_root unix_info () ''/data/a.img'' = ''/''"
    and r2: "queried_root unix_info () '''' = ''/''"
    and r3: "queried_root unix_info () ''relative'' = ''/''"
    using U [of "''/data/a.img''"] U [of "''''"] U [of "''relative''"]
    by (simp_all add: unix_info_def)
  have "sint (getAvailableSpace unix_info () ''/data/a.img'') = 4096"
    "sint (getAvailableSpace unix_info () '''') = 4096"
    "sint (getAvailableSpace unix_info () ''relative'') = 4096"
    using U [of "''/data/a.img''"] U [of "''''"] U [of "''relative''"]
    by (simp_all add: r1 r2 r3 Let_def) (simp_all add: unix_info_def)
  moreover have c: "queried_root win_info () ''C:/images/a.img'' = ''C:/''"
    and d: "queried_root win_info () ''D:/a.img'' = ''D:/''"
    using W [of "''C:/images/a.img''"] W [of "''D:/a.img''"]
    by (simp_all add: win_info_def)
  moreover have "sint (getAvailableSpace win_info () ''C:/images/a.img'') = 4096"
    "sint (getAvailableSpace win_info () ''D:/a.img'') = 0"
    using W [of "''C:/images/a.img''"] W [of "''D:/a.img''"]
    by (simp_all add: c d Let_def) (simp_all add: win_info_def)
  moreover have "sint (storage_bytesAvailable unix_info () ''relative'') = - 1"
    "sint (storage_bytesAvailable win_info () ''D:/'') = - 1"
    by (simp_all add: unix_info_def win_info_def)
  ultimately show ?thesis using l by simp
qed

end
